theory Spec2Isabelle
  imports Main
begin

section \<open>Bytes, text and the JavaScript primitives the proxy uses\<close>

text \<open>
  A buffer (\<open>Uint8Array\<close>, \<open>Buffer\<close>) is a list of bytes; a byte is a \<open>char\<close>
  (\<open>of_char\<close> reads its value, 0 to 255).  Text decoded from a buffer as UTF-8 is kept
  as that list of bytes: every pattern the proxy searches for (CR LF, \<open>:\<close>, \<open>;\<close>, hex
  and decimal digits, header names) is ASCII, and a byte below 128 in UTF-8 is always
  the character itself, never part of a longer sequence.  JavaScript numbers are
  modelled as unbounded integers (doubles are exact below \<open>2^53\<close>).
\<close>

abbreviation CR :: char where "CR \<equiv> CHR 0x0D"
abbreviation LF :: char where "LF \<equiv> CHR 0x0A"
abbreviation CRLF :: string where "CRLF \<equiv> [CR, LF]"

text \<open>
  The relative index of \<open>slice(start, end)\<close> (the same for \<open>Uint8Array.slice\<close>,
  \<open>Buffer.slice\<close> and \<open>String.slice\<close>): a negative index counts from the end, and
  the result is clamped to \<open>0..length\<close>.
\<close>

definition rel_index :: "int \<Rightarrow> nat \<Rightarrow> nat" where
  "rel_index i n = (if i < 0 then nat (max (int n + i) 0) else min (nat i) n)"

definition js_slice :: "'a list \<Rightarrow> int \<Rightarrow> int \<Rightarrow> 'a list" where
  "js_slice xs s e =
     (let k = rel_index s (length xs); f = rel_index e (length xs)
      in take (f - k) (drop k xs))"

text \<open>\<open>buf[i]\<close> on a typed array: \<open>undefined\<close> (here \<open>None\<close>) outside \<open>0..length-1\<close>.\<close>

definition js_at :: "'a list \<Rightarrow> int \<Rightarrow> 'a option" where
  "js_at xs i = (if 0 \<le> i \<and> i < int (length xs) then Some (xs ! nat i) else None)"

text \<open>
  White space as \<open>String.prototype.trim\<close> and \<open>parseInt\<close> skip it, read on the UTF-8
  bytes: \<open>ws_len s\<close> is the number of bytes of the white-space character \<open>s\<close> starts
  with (TAB, LF, VT, FF, CR, SP, U+00A0, U+1680, U+2000..U+200A, U+2028, U+2029, U+202F,
  U+205F, U+3000, U+FEFF), and 0 when it starts with none.
\<close>

definition ascii_ws :: "char \<Rightarrow> bool" where
  "ascii_ws c = (of_char c \<in> {9, 10, 11, 12, 13, 32 :: nat})"

fun ws_len :: "string \<Rightarrow> nat" where
  "ws_len [] = 0"
| "ws_len (c # cs) =
     (if ascii_ws c then 1
      else if of_char c = (0xC2 :: nat) then
        (case cs of d # _ \<Rightarrow> if of_char d = (0xA0 :: nat) then 2 else 0 | _ \<Rightarrow> 0)
      else if of_char c = (0xE1 :: nat) then
        (case cs of d # e # _ \<Rightarrow>
           if of_char d = (0x9A :: nat) \<and> of_char e = (0x80 :: nat) then 3 else 0 | _ \<Rightarrow> 0)
      else if of_char c = (0xE2 :: nat) then
        (case cs of d # e # _ \<Rightarrow>
           if of_char d = (0x80 :: nat) \<and>
              ((0x80 :: nat) \<le> of_char e \<and> of_char e \<le> (0x8A :: nat) \<or>
               of_char e \<in> {0xA8, 0xA9, 0xAF :: nat}) then 3
           else if of_char d = (0x81 :: nat) \<and> of_char e = (0x9F :: nat) then 3 else 0
         | _ \<Rightarrow> 0)
      else if of_char c = (0xE3 :: nat) then
        (case cs of d # e # _ \<Rightarrow>
           if of_char d = (0x80 :: nat) \<and> of_char e = (0x80 :: nat) then 3 else 0 | _ \<Rightarrow> 0)
      else if of_char c = (0xEF :: nat) then
        (case cs of d # e # _ \<Rightarrow>
           if of_char d = (0xBB :: nat) \<and> of_char e = (0xBF :: nat) then 3 else 0 | _ \<Rightarrow> 0)
      else 0)"

function trimStart :: "string \<Rightarrow> string" where
  "trimStart s = (if ws_len s = 0 then s else trimStart (drop (ws_len s) s))"
  by pat_completeness auto
termination
proof (relation "measure length")
  show "wf (measure length)" by simp
next
  fix s :: string
  assume "ws_len s \<noteq> 0"
  then have "s \<noteq> []" by (cases s) auto
  with \<open>ws_len s \<noteq> 0\<close> show "(drop (ws_len s) s, s) \<in> measure length" by simp
qed

declare trimStart.simps [simp del]

text \<open>
  The same characters at the end of a text.  A lead byte of UTF-8 always starts a new
  character, so a white-space sequence found at the end is one the decoder produced.
\<close>

definition ws_len_end :: "string \<Rightarrow> nat" where
  "ws_len_end s =
     (let n = length s in
      if 1 \<le> n \<and> ws_len (drop (n - 1) s) = 1 then 1
      else if 2 \<le> n \<and> ws_len (drop (n - 2) s) = 2 then 2
      else if 3 \<le> n \<and> ws_len (drop (n - 3) s) = 3 then 3
      else 0)"

function trimEnd :: "string \<Rightarrow> string" where
  "trimEnd s =
     (if ws_len_end s = 0 \<or> length s < ws_len_end s then s
      else trimEnd (take (length s - ws_len_end s) s))"
  by pat_completeness auto
termination
proof (relation "measure length")
  show "wf (measure length)" by simp
next
  fix s :: string
  assume a: "\<not> (ws_len_end s = 0 \<or> length s < ws_len_end s)"
  then have "s \<noteq> []" by (cases s) (auto simp: ws_len_end_def)
  with a show "(take (length s - ws_len_end s) s, s) \<in> measure length" by simp
qed

declare trimEnd.simps [simp del] ws_len.simps [simp del]

definition js_trim :: "string \<Rightarrow> string" where
  "js_trim s = trimEnd (trimStart s)"

text \<open>Digits.  \<open>parseInt\<close> reads the longest prefix of digits of its radix; its
  result is a number or \<open>NaN\<close>.\<close>

datatype number = NaN | Num int

definition digit_val :: "char \<Rightarrow> nat option" where
  "digit_val c =
     (let n = (of_char c :: nat) in
      if 48 \<le> n \<and> n \<le> 57 then Some (n - 48)
      else if 97 \<le> n \<and> n \<le> 122 then Some (n - 87)
      else if 65 \<le> n \<and> n \<le> 90 then Some (n - 55)
      else None)"

definition is_digit :: "nat \<Rightarrow> char \<Rightarrow> bool" where
  "is_digit radix c = (case digit_val c of Some d \<Rightarrow> d < radix | None \<Rightarrow> False)"

definition digits_val :: "nat \<Rightarrow> string \<Rightarrow> nat" where
  "digits_val radix ds = foldl (\<lambda>acc c. acc * radix + the (digit_val c)) 0 ds"

text \<open>
  \<open>parseInt(s, radix)\<close> for radix 10 (also the default, when no radix is given) and 16:
  leading white space is skipped, then an optional sign, then \<open>0x\<close> or \<open>0X\<close> (radix
  16, or no radix given, which switches to 16), then the digits.
\<close>

definition strip_sign :: "string \<Rightarrow> int \<times> string" where
  "strip_sign s =
     (case s of
        c # cs \<Rightarrow> if c = CHR ''-'' then (-1, cs) else if c = CHR ''+'' then (1, cs) else (1, s)
      | [] \<Rightarrow> (1, s))"

definition has_0x :: "string \<Rightarrow> bool" where
  "has_0x s = (case s of a # b # _ \<Rightarrow> a = CHR ''0'' \<and> (b = CHR ''x'' \<or> b = CHR ''X'') | _ \<Rightarrow> False)"

definition parse_digits :: "nat \<Rightarrow> int \<Rightarrow> string \<Rightarrow> number" where
  "parse_digits radix sign s =
     (let z = takeWhile (is_digit radix) s
      in if z = [] then NaN else Num (sign * int (digits_val radix z)))"

definition parseInt16 :: "string \<Rightarrow> number" where
  "parseInt16 s =
     (let (sign, r) = strip_sign (trimStart s)
      in parse_digits 16 sign (if has_0x r then drop 2 r else r))"

definition parseInt :: "string \<Rightarrow> number" where
  "parseInt s =
     (let (sign, r) = strip_sign (trimStart s)
      in if has_0x r then parse_digits 16 sign (drop 2 r) else parse_digits 10 sign r)"

text \<open>\<open>n.toString()\<close> and \<open>n.toString(16)\<close> of a length.\<close>

definition digit_char :: "nat \<Rightarrow> char" where
  "digit_char d = (if d < 10 then char_of (48 + d) else char_of (87 + d))"

fun toStringRadix :: "nat \<Rightarrow> nat \<Rightarrow> string" where
  "toStringRadix radix n =
     (if radix < 2 \<or> n < radix then [digit_char n]
      else toStringRadix radix (n div radix) @ [digit_char (n mod radix)])"

declare toStringRadix.simps [simp del]

abbreviation toString10 :: "nat \<Rightarrow> string" where "toString10 \<equiv> toStringRadix 10"
abbreviation toString16 :: "nat \<Rightarrow> string" where "toString16 \<equiv> toStringRadix 16"

text \<open>\<open>s.toLowerCase()\<close> on the ASCII letters (all that a comparison with an ASCII
  literal can see).\<close>

definition lower_char :: "char \<Rightarrow> char" where
  "lower_char c =
     (let n = (of_char c :: nat) in if 65 \<le> n \<and> n \<le> 90 then char_of (n + 32) else c)"

definition toLowerCase :: "string \<Rightarrow> string" where
  "toLowerCase s = map lower_char s"

text \<open>\<open>s.indexOf(pat, from)\<close>, \<open>s.includes(pat)\<close> and \<open>s.split(sep)\<close> for a
  non-empty separator.\<close>

fun indexOf_from :: "string \<Rightarrow> string \<Rightarrow> nat \<Rightarrow> nat option" where
  "indexOf_from pat [] i = (if pat = [] then Some i else None)"
| "indexOf_from pat (c # cs) i =
     (if take (length pat) (c # cs) = pat then Some i else indexOf_from pat cs (Suc i))"

definition indexOf :: "string \<Rightarrow> string \<Rightarrow> nat option" where
  "indexOf s pat = indexOf_from pat s 0"

definition js_includes :: "string \<Rightarrow> string \<Rightarrow> bool" where
  "js_includes s pat = (indexOf s pat \<noteq> None)"

function split :: "string \<Rightarrow> string \<Rightarrow> string list" where
  "split sep s =
     (case indexOf s sep of
        None \<Rightarrow> [s]
      | Some i \<Rightarrow> if sep = [] then [s] else take i s # split sep (drop (i + length sep) s))"
  by pat_completeness auto
termination
proof (relation "measure (\<lambda>(sep, s). length s)")
  show "wf (measure (\<lambda>(sep, s). length s))" by simp
next
  fix sep s :: string and i :: nat
  assume i: "indexOf s sep = Some i" and sep: "sep \<noteq> []"
  have "\<And>k. indexOf_from sep s k = Some i \<Longrightarrow> s \<noteq> []"
    using sep by (cases s) auto
  with i have "s \<noteq> []" by (simp add: indexOf_def)
  with sep show "((sep, drop (i + length sep) s), (sep, s)) \<in> measure (\<lambda>(sep, s). length s)"
    by simp
qed

declare split.simps [simp del]

section \<open>The control channel: length-prefixed JSON frames\<close>

text \<open>
  A control message, as \<open>type ControlMessage\<close> declares it.  \<open>JSON.parse\<close> belongs to
  the platform: the readers below take it as the parameter \<open>json_parse\<close>, which is
  \<open>None\<close> where \<open>JSON.parse\<close> throws or yields a value the caller's \<open>if (message)\<close>
  rejects.  \<open>UnknownType\<close> is any other parsed value.
\<close>

datatype control_message =
    AllocateChannel string nat
  | ChannelAllocated string nat
  | ChannelReleased nat
  | ErrorMessage string string
  | Heartbeat
  | UnknownType

text \<open>\<open>buf.readUInt32LE(0)\<close> and \<open>DataView.getUint32(0, true)\<close>: \<open>None\<close> is the
  \<open>RangeError\<close> of a buffer shorter than four bytes.\<close>

definition readUInt32LE :: "string \<Rightarrow> nat option" where
  "readUInt32LE buf =
     (case buf of
        b0 # b1 # b2 # b3 # _ \<Rightarrow>
          Some (of_char b0 + 256 * of_char b1 + 65536 * of_char b2 + 16777216 * of_char b3)
      | _ \<Rightarrow> None)"

text \<open>\<open>writeUInt32LE\<close> / \<open>setUint32(0, n, true)\<close> followed by the JSON bytes
  (\<open>sendControlMessage\<close> on both sides).\<close>

definition writeUInt32LE :: "nat \<Rightarrow> string" where
  "writeUInt32LE n =
     [char_of n, char_of (n div 256), char_of (n div 65536), char_of (n div 16777216)]"

definition encode_frame :: "string \<Rightarrow> string" where
  "encode_frame json = writeUInt32LE (length json) @ json"

subsection \<open>Edge side: \<open>readControlMessages\<close> and \<open>parseControlMessage\<close> (container.ts)\<close>

definition es_parseControlMessage :: "(string \<Rightarrow> 'm option) \<Rightarrow> string \<Rightarrow> 'm option" where
  "es_parseControlMessage json_parse data =
     (if length data < 4 then None
      else case readUInt32LE data of
        None \<Rightarrow> None
      | Some len \<Rightarrow>
          if length data < 4 + len then None
          else json_parse (js_slice data 4 (4 + int len)))"

text \<open>
  The inner \<open>while (true)\<close> of \<open>readControlMessages\<close>: the messages handled, in
  order, and the rolling buffer left.  A frame that does not parse is skipped.
\<close>

function extract_frames :: "(string \<Rightarrow> 'm option) \<Rightarrow> string \<Rightarrow> 'm list \<times> string" where
  "extract_frames json_parse controlBuffer =
     (if length controlBuffer < 4 then ([], controlBuffer)
      else case readUInt32LE controlBuffer of
        None \<Rightarrow> ([], controlBuffer)
      | Some frameLength \<Rightarrow>
          let totalFrameSize = 4 + frameLength in
          if length controlBuffer < totalFrameSize then ([], controlBuffer)
          else
            let frame = js_slice controlBuffer 0 (int totalFrameSize);
                rest = js_slice controlBuffer (int totalFrameSize) (int (length controlBuffer));
                (ms, left) = extract_frames json_parse rest
            in (case es_parseControlMessage json_parse frame of
                  Some message \<Rightarrow> (message # ms, left)
                | None \<Rightarrow> (ms, left)))"
  by pat_completeness auto
termination
proof (relation "measure (\<lambda>(jp, buf). length buf)")
  show "wf (measure (\<lambda>(jp, buf :: string). length buf))" by simp
next
  fix json_parse :: "string \<Rightarrow> 'm option" and controlBuffer :: string
    and frameLength totalFrameSize :: nat and frame rest :: string
  assume "\<not> length controlBuffer < 4" and "totalFrameSize = 4 + frameLength"
    and "\<not> length controlBuffer < totalFrameSize"
    and "rest = js_slice controlBuffer (int totalFrameSize) (int (length controlBuffer))"
  then show "((json_parse, rest), (json_parse, controlBuffer))
      \<in> measure (\<lambda>(jp, buf). length buf)"
    by (simp add: js_slice_def rel_index_def)
qed

declare extract_frames.simps [simp del]

text \<open>
  The outer loop over the reads of the control stream.  The dispatched messages are
  kept in a log, in the order \<open>handleControlMessage\<close> is called on them.
\<close>

datatype read_result = Chunk string | Done | ReadFailed

record 'm control_reader =
  controlBuffer :: string
  isConnected :: bool
  dispatched :: "'m list"

fun readControlMessages ::
  "(string \<Rightarrow> 'm option) \<Rightarrow> 'm control_reader \<Rightarrow> read_result list \<Rightarrow> 'm control_reader" where
  "readControlMessages json_parse st [] = st"
| "readControlMessages json_parse st (r # rs) =
     (if \<not> isConnected st then st
      else case r of
        Done \<Rightarrow> st\<lparr>isConnected := False\<rparr>
      | ReadFailed \<Rightarrow> st\<lparr>isConnected := False\<rparr>
      | Chunk incoming \<Rightarrow>
          let (ms, left) = extract_frames json_parse (controlBuffer st @ incoming)
          in readControlMessages json_parse
               (st\<lparr>controlBuffer := left, dispatched := dispatched st @ ms\<rparr>) rs)"

subsection \<open>Container side: \<open>parseControlMessage\<close> and the control socket's \<open>data\<close> handler\<close>

text \<open>
  \<open>text_length\<close> is the length of \<open>new TextDecoder().decode(data)\<close>, the platform's.
  The \<open>DataView\<close> is read from offset 0 of the buffer the bytes arrived in.  Every
  exception is caught and gives \<open>null\<close>.
\<close>

definition cs_parseControlMessage ::
  "(string \<Rightarrow> nat) \<Rightarrow> (string \<Rightarrow> 'm option) \<Rightarrow> string \<Rightarrow> 'm option" where
  "cs_parseControlMessage text_length json_parse data =
     (if text_length data < 4 then None
      else case readUInt32LE data of
        None \<Rightarrow> None
      | Some len \<Rightarrow>
          if length data < 4 + len then None
          else json_parse (js_slice data 4 (4 + int len)))"

text \<open>The \<open>data\<close> handler runs once per read and keeps nothing between reads: the
  messages handled over a sequence of reads.\<close>

definition cs_control_data ::
  "(string \<Rightarrow> nat) \<Rightarrow> (string \<Rightarrow> 'm option) \<Rightarrow> string list \<Rightarrow> 'm list" where
  "cs_control_data text_length json_parse reads =
     List.map_filter (cs_parseControlMessage text_length json_parse) reads"

section \<open>Chunked transfer decoding (\<open>decodeChunkedBody\<close>, both sides)\<close>

text \<open>
  The inner \<open>while (lineEnd < combined.length - 1)\<close>: the first index from \<open>lineEnd\<close>
  on with CR LF at it, or the index the scan stops at.
\<close>

function scan_line_end :: "string \<Rightarrow> int \<Rightarrow> int" where
  "scan_line_end combined lineEnd =
     (if lineEnd < int (length combined) - 1 then
        (if js_at combined lineEnd = Some CR \<and> js_at combined (lineEnd + 1) = Some LF
         then lineEnd
         else scan_line_end combined (lineEnd + 1))
      else lineEnd)"
  by pat_completeness auto
termination
  by (relation "measure (\<lambda>(combined, lineEnd). nat (int (length combined) - 1 - lineEnd))") auto

declare scan_line_end.simps [simp del]

text \<open>\<open>sizeLine.split(";")[0].trim()\<close> read by \<open>parseInt(_, 16)\<close>.\<close>

definition chunk_size_of :: "string \<Rightarrow> number" where
  "chunk_size_of sizeLine =
     parseInt16 (js_trim (case split '';'' sizeLine of x # _ \<Rightarrow> x | [] \<Rightarrow> []))"

text \<open>
  The outer \<open>while (pos < combined.length)\<close>.  The loop is the same text in both
  files (the buffer is called \<open>combined\<close> on the container side and \<open>encoded\<close> on the
  edge side).  \<open>pos\<close> is a JavaScript number and may be negative; the loop need not
  end, and \<open>None\<close> is the run that never returns.
\<close>

partial_function (option) decode_loop ::
  "string \<Rightarrow> int \<Rightarrow> string list \<Rightarrow> string list option" where
  "decode_loop combined pos decodedChunks =
     (if pos < int (length combined) then
        (let lineEnd = scan_line_end combined pos in
         if lineEnd \<ge> int (length combined) - 1 then Some decodedChunks
         else
           (case chunk_size_of (js_slice combined pos lineEnd) of
              NaN \<Rightarrow> Some decodedChunks
            | Num chunkSize \<Rightarrow>
                if chunkSize = 0 then Some decodedChunks
                else if lineEnd + 2 + chunkSize \<le> int (length combined) then
                  decode_loop combined (lineEnd + 2 + chunkSize + 2)
                    (decodedChunks @ [js_slice combined (lineEnd + 2) (lineEnd + 2 + chunkSize)])
                else Some decodedChunks))
      else Some decodedChunks)"

declare decode_loop.simps [code]

text \<open>Container side (\<open>Uint8Array[]\<close> in, the chunks combined first) and edge side
  (one \<open>Buffer\<close> in).\<close>

definition cs_decodeChunkedBody :: "string list \<Rightarrow> string option" where
  "cs_decodeChunkedBody chunks = map_option concat (decode_loop (concat chunks) 0 [])"

definition es_decodeChunkedBody :: "string \<Rightarrow> string option" where
  "es_decodeChunkedBody encoded = map_option concat (decode_loop encoded 0 [])"

section \<open>Container side: the data channels and the response reader\<close>

text \<open>
  \<open>DataChannelState\<close> of the container side.  \<open>currentSocket\<close> says whether a socket
  is attached; \<open>handlerAttached\<close> says whether \<open>handler.onData\<close> and
  \<open>handler.onClose\<close> are a request's handlers (true) or the defaults (false).  The
  listening \<open>server\<close> never changes and is left out.
\<close>

record DataChannelState =
  port :: nat
  currentSocket :: bool
  inUse :: bool
  handlerAttached :: bool

text \<open>
  A \<open>Headers\<close> object: an association list with one entry per name.  The platform
  refuses some names and values with a \<open>TypeError\<close>; which ones is the parameter
  \<open>accepts\<close> of the functions that call \<open>headers.set\<close> on received text.
\<close>

type_synonym http_headers = "(string \<times> string) list"

fun headers_set :: "http_headers \<Rightarrow> string \<Rightarrow> string \<Rightarrow> http_headers" where
  "headers_set [] k v = [(k, v)]"
| "headers_set ((k', v') # hs) k v =
     (if k' = k then (k, v) # hs else (k', v') # headers_set hs k v)"

definition headers_get :: "http_headers \<Rightarrow> string \<Rightarrow> string option" where
  "headers_get hs k = map_of hs k"

definition headers_has :: "http_headers \<Rightarrow> string \<Rightarrow> bool" where
  "headers_has hs k = (map_of hs k \<noteq> None)"

text \<open>
  \<open>headers.entries()\<close> (and any other iteration of a \<open>Headers\<close> object) yields the
  entries sorted by name, the names compared byte by byte, whatever the order in which
  they were set.  \<open>headers_entries\<close> sorts by insertion, keeping the order of entries
  that have the same name.
\<close>

fun name_less :: "string \<Rightarrow> string \<Rightarrow> bool" where
  "name_less [] [] = False"
| "name_less [] (b # bs) = True"
| "name_less (a # as) [] = False"
| "name_less (a # as) (b # bs) =
     ((of_char a :: nat) < of_char b \<or> (a = b \<and> name_less as bs))"

fun insert_entry :: "string \<times> string \<Rightarrow> http_headers \<Rightarrow> http_headers" where
  "insert_entry e [] = [e]"
| "insert_entry e (x # xs) =
     (if name_less (fst e) (fst x) then e # x # xs else x # insert_entry e xs)"

definition headers_entries :: "http_headers \<Rightarrow> (string \<times> string) list" where
  "headers_entries hs = foldl (\<lambda>acc e. insert_entry e acc) [] hs"

text \<open>The \<open>Response\<close> handed to the ingress: \<open>resp_statusText\<close> is empty when the
  constructor is given none, \<open>resp_body\<close> is \<open>None\<close> for a \<open>null\<close> body.\<close>

record http_response =
  resp_status :: nat
  resp_statusText :: string
  resp_headers :: http_headers
  resp_body :: "string option"

text \<open>
  What became of the promise: still pending, resolved, rejected with an \<open>Error\<close> of
  the given message, or never settled, because \<open>finalizeResponse\<close> threw after
  \<open>cleanup\<close> had run (\<open>Thrown\<close>, with the name of the error: the exception leaves the
  socket's callback, and neither \<open>resolve\<close> nor \<open>reject\<close> is called then or later) or
  because it does not return (\<open>NeverReturns\<close>).
\<close>

datatype reader_outcome =
    Pending
  | Resolved http_response
  | Rejected string
  | Thrown string
  | NeverReturns

text \<open>The variables \<open>readHTTPResponseFromDataChannel\<close> closes over, with the channel
  and the promise.\<close>

record response_reader =
  buffer :: string
  headersParsed :: bool
  statusCode :: nat
  statusText :: string
  headers :: http_headers
  bodyChunks :: "string list"
  contentLength :: "number option"
  isChunked :: bool
  bodyReceived :: nat
  responseComplete :: bool
  channel :: DataChannelState
  outcome :: reader_outcome

definition readHTTPResponseFromDataChannel :: "DataChannelState \<Rightarrow> response_reader" where
  "readHTTPResponseFromDataChannel ch =
     \<lparr>buffer = [], headersParsed = False, statusCode = 200, statusText = ''OK'',
      headers = [], bodyChunks = [],
      contentLength = None, isChunked = False, bodyReceived = 0, responseComplete = False,
      channel = ch\<lparr>handlerAttached := True\<rparr>, outcome = Pending\<rparr>"

definition cleanup :: "response_reader \<Rightarrow> response_reader" where
  "cleanup st =
     (if responseComplete st then st
      else st\<lparr>responseComplete := True,
              channel := (channel st)\<lparr>handlerAttached := False, inUse := False\<rparr>\<rparr>)"

definition findHeaderEnd :: "string \<Rightarrow> nat option" where
  "findHeaderEnd buf = indexOf buf (CRLF @ CRLF)"

text \<open>
  \<open>.*\<close> of a regular expression: the longest run of characters that are not line
  terminators (LF, CR, U+2028 and U+2029, the last two being \<open>E2 80 A8\<close> and
  \<open>E2 80 A9\<close> in UTF-8).
\<close>

fun dot_star :: "string \<Rightarrow> string" where
  "dot_star [] = []"
| "dot_star (c # cs) =
     (if c = CR \<or> c = LF \<or>
         (c = CHR 0xE2 \<and>
          (take 2 cs = [CHR 0x80, CHR 0xA8] \<or> take 2 cs = [CHR 0x80, CHR 0xA9]))
      then [] else c # dot_star cs)"

text \<open>
  \<open>statusLine.match(/HTTP\/\d\.\d (\d+)(.*)/)\<close>: the two captures of the leftmost
  match.  \<open>\d+\<close> is greedy and \<open>(.*)\<close> also matches nothing, so the first capture is
  the longest run of digits at the first place where \<open>HTTP/d.d d\<close> stands, and the
  second what follows it up to a line terminator.
\<close>

definition match_status_at :: "string \<Rightarrow> (string \<times> string) option" where
  "match_status_at s =
     (if take 5 s = ''HTTP/'' then
        (case drop 5 s of
           a # dot # b # sp # rest \<Rightarrow>
             if is_digit 10 a \<and> dot = CHR ''.'' \<and> is_digit 10 b \<and> sp = CHR '' '' \<and>
                takeWhile (is_digit 10) rest \<noteq> []
             then Some (takeWhile (is_digit 10) rest, dot_star (dropWhile (is_digit 10) rest))
             else None
         | _ \<Rightarrow> None)
      else None)"

fun status_match :: "string \<Rightarrow> (string \<times> string) option" where
  "status_match [] = None"
| "status_match (c # cs) =
     (case match_status_at (c # cs) of Some g \<Rightarrow> Some g | None \<Rightarrow> status_match cs)"

text \<open>
  The loop over \<open>lines[1..]\<close>: the headers after it, and whether it ran to its end
  (\<open>False\<close>: \<open>headers.set\<close> threw, which leaves the handler).
\<close>

fun parse_header_lines ::
  "(string \<Rightarrow> string \<Rightarrow> bool) \<Rightarrow> string list \<Rightarrow> http_headers \<Rightarrow> http_headers \<times> bool" where
  "parse_header_lines accepts [] hs = (hs, True)"
| "parse_header_lines accepts (line # lines) hs =
     (case indexOf line '':'' of
        None \<Rightarrow> parse_header_lines accepts lines hs
      | Some colonIndex \<Rightarrow>
          if colonIndex > 0 then
            (let key = js_trim (take colonIndex line);
                 v = js_trim (drop (colonIndex + 1) line)
             in if accepts (toLowerCase key) v
                then parse_header_lines accepts lines (headers_set hs (toLowerCase key) v)
                else (hs, False))
          else parse_header_lines accepts lines hs)"

declare status_match.simps [simp del] parse_header_lines.simps [simp del]

definition isResponseComplete :: "number option \<Rightarrow> nat \<Rightarrow> bool \<Rightarrow> string list \<Rightarrow> bool" where
  "isResponseComplete cl received chunked chunks =
     (if (case cl of Some (Num n) \<Rightarrow> n \<le> int received | _ \<Rightarrow> False) then True
      else if chunked \<and> chunks \<noteq> [] \<and>
              js_includes
                (js_slice (last chunks) (-5) (int (length (last chunks))))
                (''0'' @ CRLF @ CRLF)
      then True
      else False)"

text \<open>
  \<open>new Response(bodyInit, {status, statusText, headers})\<close> belongs to the runtime
  (Bun): it throws a \<open>RangeError\<close> unless the status is 101 or within 200..599.  The
  status text and the headers are taken as they are given.
\<close>

definition response_status_ok :: "nat \<Rightarrow> bool" where
  "response_status_ok status = (status = 101 \<or> (200 \<le> status \<and> status \<le> 599))"

text \<open>\<open>finalizeResponse\<close>: \<open>None\<close> when the chunked decoder does not return, \<open>Inl\<close> the
  name of the error when the constructor throws, \<open>Inr\<close> the response handed to
  \<open>resolve\<close>.\<close>

definition finalizeResponse ::
  "nat \<Rightarrow> string \<Rightarrow> http_headers \<Rightarrow> string list \<Rightarrow> bool \<Rightarrow>
   (string + http_response) option" where
  "finalizeResponse code reason hs chunks chunked =
     (case (if chunked then cs_decodeChunkedBody chunks else Some (concat chunks)) of
        None \<Rightarrow> None
      | Some body \<Rightarrow>
          if response_status_ok code then
            Some (Inr \<lparr>resp_status = code, resp_statusText = reason, resp_headers = hs,
                       resp_body = (if length body > 0 then Some body else None)\<rparr>)
          else Some (Inl ''RangeError''))"

definition resolve ::
  "response_reader \<Rightarrow> (string + http_response) option \<Rightarrow> response_reader" where
  "resolve st r =
     st\<lparr>outcome := (case r of
                       Some (Inr resp) \<Rightarrow> Resolved resp
                     | Some (Inl err) \<Rightarrow> Thrown err
                     | None \<Rightarrow> NeverReturns)\<rparr>"

definition no_body_status :: "nat \<Rightarrow> bool" where
  "no_body_status code = (code = 204 \<or> code = 304 \<or> (100 \<le> code \<and> code < 200))"

definition finish_if_complete :: "response_reader \<Rightarrow> response_reader" where
  "finish_if_complete st =
     (if isResponseComplete (contentLength st) (bodyReceived st) (isChunked st) (bodyChunks st)
      then resolve (cleanup st)
             (finalizeResponse (statusCode st) (statusText st) (headers st) (bodyChunks st)
                (isChunked st))
      else st)"

definition dataHandler ::
  "(string \<Rightarrow> string \<Rightarrow> bool) \<Rightarrow> response_reader \<Rightarrow> string \<Rightarrow> response_reader" where
  "dataHandler accepts st0 data =
     (if responseComplete st0 then st0
      else
        let st = st0\<lparr>buffer := buffer st0 @ data\<rparr> in
        if \<not> headersParsed st then
          (case findHeaderEnd (buffer st) of
             None \<Rightarrow> st
           | Some headerEnd \<Rightarrow>
               (case split CRLF (take headerEnd (buffer st)) of
                  [] \<Rightarrow> st
                | statusLine # headerLines \<Rightarrow>
                    let st1 = (case status_match statusLine of
                                 Some (ds, rest) \<Rightarrow>
                                   st\<lparr>statusCode := digits_val 10 ds,
                                      statusText := (if js_trim rest = [] then ''OK''
                                                     else js_trim rest)\<rparr>
                               | None \<Rightarrow> st);
                        (hs, ok) = parse_header_lines accepts headerLines (headers st1);
                        st2 = st1\<lparr>headers := hs\<rparr>
                    in if \<not> ok then st2
                       else
                         let st3 = st2
                               \<lparr>contentLength :=
                                  (case headers_get hs ''content-length'' of
                                     Some v \<Rightarrow> if v \<noteq> [] then Some (parseInt v)
                                               else contentLength st2
                                   | None \<Rightarrow> contentLength st2),
                                isChunked :=
                                  (case headers_get hs ''transfer-encoding'' of
                                     Some v \<Rightarrow> if js_includes (toLowerCase v) ''chunked''
                                               then True else isChunked st2
                                   | None \<Rightarrow> isChunked st2),
                                headersParsed := True\<rparr>
                         in if no_body_status (statusCode st3) then
                              resolve (cleanup st3)
                                (finalizeResponse (statusCode st3) (statusText st3)
                                   (headers st3) [] False)
                            else
                              let bodyStart = headerEnd + 4;
                                  st4 = (if bodyStart < length (buffer st3) then
                                           st3\<lparr>bodyChunks :=
                                                 bodyChunks st3 @ [drop bodyStart (buffer st3)],
                                               bodyReceived :=
                                                 bodyReceived st3 +
                                                 length (drop bodyStart (buffer st3))\<rparr>
                                         else st3)
                              in finish_if_complete (st4\<lparr>buffer := []\<rparr>)))
        else
          finish_if_complete
            (st\<lparr>bodyChunks := bodyChunks st @ [buffer st],
                bodyReceived := bodyReceived st + length (buffer st),
                buffer := []\<rparr>))"

definition closeHandler :: "response_reader \<Rightarrow> response_reader" where
  "closeHandler st =
     (if responseComplete st then st
      else if headersParsed st then
        resolve (cleanup st)
          (finalizeResponse (statusCode st) (statusText st) (headers st) (bodyChunks st)
             (isChunked st))
      else (cleanup st)\<lparr>outcome := Rejected ''Connection closed before headers received''\<rparr>)"

definition timeoutHandler :: "response_reader \<Rightarrow> response_reader" where
  "timeoutHandler st =
     (if \<not> responseComplete st
      then (cleanup st)\<lparr>outcome := Rejected ''Response timeout after 10 minutes''\<rparr>
      else st)"

text \<open>
  What can happen on the data channel while a response is awaited: bytes arrive, the
  peer closes the socket (the listener's \<open>close\<close> runs \<open>handler.onClose\<close> and then,
  when that call returned, clears the channel), or the 10 minute timer fires.
\<close>

datatype channel_event = DataArrived string | SocketClosed | TimeoutFired

text \<open>Whether the call of \<open>closeHandler\<close> that led from \<open>st\<close> to \<open>st'\<close> returned: it
  does at once for a completed response, and otherwise unless \<open>finalizeResponse\<close>
  threw or loops.\<close>

definition close_returned :: "response_reader \<Rightarrow> response_reader \<Rightarrow> bool" where
  "close_returned st st' =
     (responseComplete st \<or>
      (case outcome st' of Thrown err \<Rightarrow> False | NeverReturns \<Rightarrow> False | _ \<Rightarrow> True))"

definition on_event ::
  "(string \<Rightarrow> string \<Rightarrow> bool) \<Rightarrow> response_reader \<Rightarrow> channel_event \<Rightarrow> response_reader" where
  "on_event accepts st ev =
     (case ev of
        DataArrived data \<Rightarrow> dataHandler accepts st data
      | SocketClosed \<Rightarrow>
          (let st' = closeHandler st
           in if close_returned st st' then
                st'\<lparr>channel := (channel st')
                     \<lparr>currentSocket := False, inUse := False, handlerAttached := False\<rparr>\<rparr>
              else st')
      | TimeoutFired \<Rightarrow> timeoutHandler st)"

definition run_reader ::
  "(string \<Rightarrow> string \<Rightarrow> bool) \<Rightarrow> response_reader \<Rightarrow> channel_event list \<Rightarrow> response_reader" where
  "run_reader accepts st evs = foldl (on_event accepts) st evs"

section \<open>Container side: the ingress and the channel pool\<close>

text \<open>A thrown \<open>Error\<close>: its name and its message.  \<open>String(error)\<close>, which the
  template \<open>`${error}`\<close> calls, is \<open>name: message\<close>.\<close>

datatype js_error = JsError string string

fun err_message :: "js_error \<Rightarrow> string" where
  "err_message (JsError name message) = message"

fun error_to_string :: "js_error \<Rightarrow> string" where
  "error_to_string (JsError name message) =
     (if message = [] then name else if name = [] then message else name @ '': '' @ message)"

abbreviation new_Error :: "string \<Rightarrow> js_error" where
  "new_Error message \<equiv> JsError ''Error'' message"

text \<open>
  \<open>HTTPProxyServer\<close>: \<open>dataChannels\<close> is the \<open>Map\<close> in insertion order (ports 8085
  to 8109), \<open>pendingAllocations\<close> the request ids that have a resolver, \<open>control_sent\<close>
  the messages handed to the control socket.
\<close>

record proxy_server =
  controlSocket :: bool
  dataChannels :: "DataChannelState list"
  pendingAllocations :: "string list"
  control_sent :: "control_message list"
  successfulRequests :: nat
  serviceUnavailableCount :: nat

text \<open>\<open>sendControlMessage\<close> of the container side: nothing is sent without a control
  socket.\<close>

definition cs_sendControlMessage :: "proxy_server \<Rightarrow> control_message \<Rightarrow> proxy_server" where
  "cs_sendControlMessage st message =
     (if \<not> controlSocket st then st
      else st\<lparr>control_sent := control_sent st @ [message]\<rparr>)"

text \<open>\<open>Array.from(dataChannels.values()).find(ch => !ch.inUse)\<close>, as the index of the
  channel found.\<close>

fun find_free :: "DataChannelState list \<Rightarrow> nat option" where
  "find_free [] = None"
| "find_free (ch # chs) =
     (if \<not> inUse ch then Some 0 else map_option Suc (find_free chs))"

text \<open>
  \<open>allocateDataChannel\<close>.  \<open>reply\<close> is what the peer does with an
  \<open>allocate_channel\<close> request within the 10 seconds: \<open>Some p\<close> when
  \<open>channel_allocated\<close> for this request arrives (with port \<open>p\<close>), \<open>None\<close> when the
  timer fires first.
\<close>

definition allocateDataChannel ::
  "proxy_server \<Rightarrow> string \<Rightarrow> nat option \<Rightarrow> (js_error + nat) \<times> proxy_server" where
  "allocateDataChannel st requestId reply =
     (case find_free (dataChannels st) of
        None \<Rightarrow> (Inl (new_Error ''No available data channels''), st)
      | Some i \<Rightarrow>
          let availableChannel = dataChannels st ! i;
              st1 = st\<lparr>dataChannels := (dataChannels st)[i := availableChannel\<lparr>inUse := True\<rparr>]\<rparr>
          in if currentSocket availableChannel then (Inr (port availableChannel), st1)
             else
               let st2 = cs_sendControlMessage
                           (st1\<lparr>pendingAllocations := pendingAllocations st1 @ [requestId]\<rparr>)
                           (AllocateChannel requestId (port availableChannel))
               in (case reply of
                     Some p \<Rightarrow>
                       (Inr p,
                        st2\<lparr>pendingAllocations := removeAll requestId (pendingAllocations st2)\<rparr>)
                   | None \<Rightarrow>
                       (Inl (new_Error ''Channel allocation timeout''),
                        st2\<lparr>pendingAllocations := removeAll requestId (pendingAllocations st2),
                            dataChannels :=
                              (dataChannels st2)[i := (dataChannels st2 ! i)\<lparr>inUse := False\<rparr>]\<rparr>)))"

text \<open>
  What the surroundings do during one request: the peer's answer to the allocation,
  whether the peer's socket shows up on the data port within the 5 seconds of
  \<open>waitForDataChannelConnection\<close>, and how
  \<open>await Promise.all([receivePromise, sendPromise])\<close> ends (the two promises are modelled
  on their own: \<open>run_reader\<close> above and \<open>sendHTTPRequestOverDataChannel\<close> below).
\<close>

record ingress_env =
  alloc_reply :: "nat option"
  socket_arrives :: bool
  exchange :: "js_error + http_response"

text \<open>The \<open>try\<close> block of \<open>handleHTTPRequest\<close>.\<close>

definition proxy_request ::
  "proxy_server \<Rightarrow> string \<Rightarrow> ingress_env \<Rightarrow> (js_error + http_response) \<times> proxy_server" where
  "proxy_request st requestId env =
     (case allocateDataChannel st requestId (alloc_reply env) of
        (Inl e, st1) \<Rightarrow> (Inl e, st1)
      | (Inr p, st1) \<Rightarrow>
          (case find (\<lambda>ch. port ch = p) (dataChannels st1) of
             None \<Rightarrow> (Inl (new_Error (''Data channel '' @ toString10 p @ '' not found'')), st1)
           | Some ch \<Rightarrow>
               if \<not> currentSocket ch \<and> \<not> socket_arrives env then
                 (Inl (new_Error (''Data channel '' @ toString10 p @
                                  '' connection timeout after 5000ms'')), st1)
               else
                 let st2 = st1\<lparr>dataChannels :=
                                 map (\<lambda>c. if port c = p then c\<lparr>currentSocket := True\<rparr> else c)
                                   (dataChannels st1)\<rparr>
                 in (exchange env, st2)))"

definition is_health_path :: "string \<Rightarrow> bool" where
  "is_health_path pathname = (pathname = ''/healthcheck'' \<or> pathname = ''/health'')"

definition service_unavailable :: http_response where
  "service_unavailable =
     \<lparr>resp_status = 503, resp_statusText = [], resp_headers = [(''Retry-After'', ''1'')],
      resp_body = Some ''Service Unavailable: All proxy channels in use''\<rparr>"

definition bad_gateway :: "js_error \<Rightarrow> http_response" where
  "bad_gateway e =
     \<lparr>resp_status = 502, resp_statusText = [], resp_headers = [],
      resp_body = Some (''Proxy Error: '' @ error_to_string e)\<rparr>"

definition handleHTTPRequest ::
  "proxy_server \<Rightarrow> string \<Rightarrow> string \<Rightarrow> ingress_env \<Rightarrow> http_response \<times> proxy_server" where
  "handleHTTPRequest st requestId pathname env =
     (if is_health_path pathname then
        (\<lparr>resp_status = 200, resp_statusText = [],
          resp_headers = [(''Content-Type'', ''text/plain'')],
          resp_body = Some (if controlSocket st then ''CONNECTED'' else ''DISCONNECTED'')\<rparr>, st)
      else
        (case proxy_request st requestId env of
           (Inr response, st1) \<Rightarrow>
             (response, st1\<lparr>successfulRequests := successfulRequests st1 + 1\<rparr>)
         | (Inl error, st1) \<Rightarrow>
             if err_message error = ''No available data channels'' then
               (service_unavailable,
                st1\<lparr>serviceUnavailableCount := serviceUnavailableCount st1 + 1\<rparr>)
             else (bad_gateway error, st1)))"

section \<open>Container side: the request writer\<close>

text \<open>
  The request as the writer reads it: \<open>req_path\<close> is \<open>url.pathname + url.search\<close>,
  \<open>req_host\<close> is \<open>url.host\<close>, \<open>req_headers\<close> the entries of \<open>req.headers\<close> in any
  order (names in lower case, as \<open>Headers\<close> keeps them), \<open>req_body\<close> the chunks the
  body's reader yields (\<open>None\<close> for a \<open>null\<close> body).
\<close>

record http_request =
  req_method :: string
  req_path :: string
  req_host :: string
  req_headers :: http_headers
  req_body :: "string list option"

text \<open>
  \<open>socket.write\<close> belongs to the platform: the list \<open>sched\<close> holds what the next
  calls return.  A result is \<open>None\<close> when the calls listed are used up and the loop is
  still running, \<open>Inl\<close> for a throw, \<open>Inr (w, sched')\<close> with the bytes \<open>w\<close> the socket
  took and the rest of the list.
\<close>

type_synonym 'a io = "(js_error + 'a \<times> int list) option"

fun write_all :: "int list \<Rightarrow> string \<Rightarrow> string io" where
  "write_all sched [] = Some (Inr ([], sched))"
| "write_all [] (b # bs) = None"
| "write_all (bytesWritten # sched) (b # bs) =
     (if bytesWritten < 0 then Some (Inl (new_Error ''Socket is blocked''))
      else
        (case write_all sched (drop (nat bytesWritten) (b # bs)) of
           None \<Rightarrow> None
         | Some (Inl e) \<Rightarrow> Some (Inl e)
         | Some (Inr (w, sched')) \<Rightarrow> Some (Inr (take (nat bytesWritten) (b # bs) @ w, sched'))))"

text \<open>One write loop after the bytes \<open>w\<close> already on the wire.\<close>

definition then_write :: "string io \<Rightarrow> string \<Rightarrow> string io" where
  "then_write r bytes =
     (case r of
        None \<Rightarrow> None
      | Some (Inl e) \<Rightarrow> Some (Inl e)
      | Some (Inr (w, sched)) \<Rightarrow>
          (case write_all sched bytes of
             None \<Rightarrow> None
           | Some (Inl e) \<Rightarrow> Some (Inl e)
           | Some (Inr (w', sched')) \<Rightarrow> Some (Inr (w @ w', sched'))))"

text \<open>The streaming loop: each chunk read from the body, re-chunked when the request
  was chunked, raw otherwise.\<close>

fun stream_body :: "bool \<Rightarrow> string io \<Rightarrow> string list \<Rightarrow> string io" where
  "stream_body hasChunkedEncoding r [] = r"
| "stream_body hasChunkedEncoding r (v # vs) =
     stream_body hasChunkedEncoding
       (if hasChunkedEncoding
        then then_write (then_write (then_write r (toString16 (length v) @ CRLF)) v) CRLF
        else then_write r v)
       vs"

text \<open>The loop \<open>for (const [key, value] of headers.entries())\<close>.\<close>

definition header_block :: "http_headers \<Rightarrow> string" where
  "header_block hs = concat (map (\<lambda>(key, v). key @ '': '' @ v @ CRLF) (headers_entries hs))"

text \<open>The headers after \<open>if (!headers.has("host")) headers.set("host", url.host)\<close>.\<close>

definition ensure_host :: "http_request \<Rightarrow> http_headers" where
  "ensure_host req =
     (if headers_has (req_headers req) ''host'' then req_headers req
      else headers_set (req_headers req) ''host'' (req_host req))"

text \<open>\<open>headers.get("transfer-encoding")?.toLowerCase().includes("chunked") ?? false\<close>.\<close>

definition chunked_declared :: "http_headers \<Rightarrow> bool" where
  "chunked_declared hs =
     (case headers_get hs ''transfer-encoding'' of
        Some v \<Rightarrow> js_includes (toLowerCase v) ''chunked''
      | None \<Rightarrow> False)"

text \<open>The request line and the header lines, closed by an empty line.\<close>

definition request_head :: "http_request \<Rightarrow> http_headers \<Rightarrow> string" where
  "request_head req hs =
     req_method req @ '' '' @ req_path req @ '' HTTP/1.1'' @ CRLF @ header_block hs @ CRLF"

definition sendHTTPRequestOverDataChannel ::
  "DataChannelState \<Rightarrow> http_request \<Rightarrow> int list \<Rightarrow> string io" where
  "sendHTTPRequestOverDataChannel ch req sched =
     (if \<not> currentSocket ch then Some (Inl (new_Error ''Data channel not connected''))
      else
        let hs0 = ensure_host req;
            hasContentLength = (req_body req \<noteq> None \<and> headers_has hs0 ''content-length'');
            hasChunkedEncoding = (req_body req \<noteq> None \<and> chunked_declared hs0);
            bodyBytes = (case req_body req of
                           Some chunks \<Rightarrow>
                             if \<not> hasContentLength \<and> \<not> hasChunkedEncoding
                             then Some (concat chunks) else None
                         | None \<Rightarrow> None);
            hs1 = (case bodyBytes of
                     Some b \<Rightarrow> headers_set hs0 ''content-length'' (toString10 (length b))
                   | None \<Rightarrow> hs0);
            sent = write_all sched (request_head req hs1)
        in (case bodyBytes of
              Some b \<Rightarrow> then_write sent b
            | None \<Rightarrow>
                (case req_body req of
                   None \<Rightarrow> sent
                 | Some chunks \<Rightarrow>
                     let streamed = stream_body hasChunkedEncoding sent chunks
                     in if hasChunkedEncoding then then_write streamed (''0'' @ CRLF @ CRLF)
                        else streamed)))"

section \<open>Edge side: \<open>HTTPProxyControl\<close>\<close>

text \<open>
  A data channel of the edge side: \<open>es_socket\<close>, \<open>es_reader\<close> and \<open>es_writer\<close> say
  whether the field is set.  \<open>HTTPProxyControl\<close> keeps the channels in a \<open>Map\<close> keyed by
  port.  \<open>es_log\<close> records, in order, what the object did that its peer can see: a
  message written to the control channel, a TCP connection opened to a data port, a
  service loop (\<open>handleDataChannel\<close>) started on it.
\<close>

record es_channel =
  es_port :: nat
  es_socket :: bool
  es_reader :: bool
  es_writer :: bool
  es_inUse :: bool

datatype es_action =
    SentControl control_message
  | OpenedData nat
  | ServiceLoopStarted nat

record edge_control =
  es_controlSocket :: bool
  es_controlWriter :: bool
  es_controlReader :: bool
  es_dataChannels :: "nat \<rightharpoonup> es_channel"
  es_isConnected :: bool
  disconnectResolve :: bool
  disconnect_signalled :: bool
  lastHeartbeatAt :: int
  heartbeatWatchdogInterval :: "nat option"
  es_log :: "es_action list"

text \<open>\<open>sendControlMessage\<close> of the edge side: nothing is written without a control
  writer.\<close>

definition es_sendControlMessage :: "edge_control \<Rightarrow> control_message \<Rightarrow> edge_control" where
  "es_sendControlMessage st message =
     (if \<not> es_controlWriter st then st
      else st\<lparr>es_log := es_log st @ [SentControl message]\<rparr>)"

text \<open>
  \<open>connectDataChannel\<close>.  The platform decides whether \<open>getTcpPort\<close> gives a port
  (\<open>tcp_port\<close>) and whether \<open>socket.opened\<close> resolves (\<open>opened = None\<close>) or rejects
  with an error.
\<close>

record connect_env =
  tcp_port :: bool
  opened :: "js_error option"

definition connectDataChannel ::
  "connect_env \<Rightarrow> es_channel \<Rightarrow> js_error option \<times> es_channel" where
  "connectDataChannel env ch =
     (if \<not> tcp_port env
      then (Some (new_Error (''Failed to get TCP port '' @ toString10 (es_port ch))), ch)
      else (case opened env of
              Some e \<Rightarrow> (Some e, ch\<lparr>es_socket := True\<rparr>)
            | None \<Rightarrow> (None, ch\<lparr>es_socket := True, es_writer := True, es_reader := True\<rparr>)))"

definition handleChannelAllocation ::
  "connect_env \<Rightarrow> edge_control \<Rightarrow> string \<Rightarrow> nat \<Rightarrow> edge_control" where
  "handleChannelAllocation env st requestId p =
     (case es_dataChannels st p of
        None \<Rightarrow>
          es_sendControlMessage st (ErrorMessage requestId ''Requested channel not found'')
      | Some ch \<Rightarrow>
          if es_inUse ch then
            es_sendControlMessage st (ErrorMessage requestId ''Requested channel already in use'')
          else
            (case connectDataChannel env (ch\<lparr>es_inUse := True\<rparr>) of
               (Some e, ch') \<Rightarrow>
                 es_sendControlMessage (st\<lparr>es_dataChannels := (es_dataChannels st)(p \<mapsto> ch')\<rparr>)
                   (ErrorMessage requestId (error_to_string e))
             | (None, ch') \<Rightarrow>
                 (let st1 = st\<lparr>es_dataChannels := (es_dataChannels st)(p \<mapsto> ch'),
                               es_log := es_log st @ [OpenedData (es_port ch')]\<rparr>;
                      st2 = es_sendControlMessage st1 (ChannelAllocated requestId (es_port ch'))
                  in st2\<lparr>es_log := es_log st2 @ [ServiceLoopStarted (es_port ch')]\<rparr>)))"

subsection \<open>\<open>sendHTTPResponse\<close>\<close>

text \<open>
  The response the adapter returned: \<open>r_headers\<close> are the entries
  \<open>response.headers.entries()\<close> yields, \<open>r_body\<close> the chunks the body's reader yields
  (\<open>None\<close> for a \<open>null\<close> body).  The result is the list of the writes made on the
  data channel, in order.
\<close>

record es_response =
  r_status :: nat
  r_statusText :: string
  r_headers :: http_headers
  r_body :: "string list option"

definition hasContentLength_of :: "http_headers \<Rightarrow> bool" where
  "hasContentLength_of hs = (\<exists>(key, v) \<in> set hs. toLowerCase key = ''content-length'')"

definition hasTransferEncodingChunked_of :: "http_headers \<Rightarrow> bool" where
  "hasTransferEncodingChunked_of hs =
     (\<exists>(key, v) \<in> set hs. toLowerCase key = ''transfer-encoding'' \<and>
                            js_includes (toLowerCase v) ''chunked'')"

definition body_writes :: "bool \<Rightarrow> string list \<Rightarrow> string list" where
  "body_writes useChunkedEncoding chunks =
     concat (map (\<lambda>v. if useChunkedEncoding then [toString16 (length v) @ CRLF, v, CRLF] else [v])
               chunks)
     @ (if useChunkedEncoding then [''0'' @ CRLF @ CRLF] else [])"

text \<open>One chunk as these writes put it on the wire.\<close>

definition chunk_frame :: "string \<Rightarrow> string" where
  "chunk_frame v = toString16 (length v) @ CRLF @ v @ CRLF"

definition sendHTTPResponse :: "es_channel \<Rightarrow> es_response \<Rightarrow> js_error + string list" where
  "sendHTTPResponse ch response =
     (if \<not> es_writer ch then Inl (new_Error ''Channel writer not available'')
      else
        let statusLine = ''HTTP/1.1 '' @ toString10 (r_status response) @ '' '' @
                         r_statusText response @ CRLF;
            hasContentLength = hasContentLength_of (r_headers response);
            hasTransferEncodingChunked = hasTransferEncodingChunked_of (r_headers response);
            useChunkedEncoding =
              (r_body response \<noteq> None \<and> \<not> hasContentLength \<and> \<not> hasTransferEncodingChunked)
        in Inr
             ([statusLine]
              @ map (\<lambda>(key, v). key @ '': '' @ v @ CRLF) (r_headers response)
              @ (if r_body response = None \<and> \<not> hasContentLength
                 then [''Content-Length: 0'' @ CRLF] else [])
              @ (if useChunkedEncoding then [''Transfer-Encoding: chunked'' @ CRLF] else [])
              @ [CRLF]
              @ (case r_body response of
                   Some chunks \<Rightarrow> body_writes useChunkedEncoding chunks
                 | None \<Rightarrow> [])))"

subsection \<open>The heartbeat watchdog\<close>

datatype container_status = Running | Stopping | Stopped | Starting

definition stopHeartbeatWatchdog :: "edge_control \<Rightarrow> edge_control" where
  "stopHeartbeatWatchdog st = st\<lparr>heartbeatWatchdogInterval := None\<rparr>"

definition handleDisconnect :: "edge_control \<Rightarrow> edge_control" where
  "handleDisconnect st =
     (let st1 = stopHeartbeatWatchdog (st\<lparr>es_isConnected := False\<rparr>)
      in if disconnectResolve st1
         then st1\<lparr>disconnect_signalled := True, disconnectResolve := False\<rparr>
         else st1)"

definition forceCloseControlChannel :: "edge_control \<Rightarrow> edge_control" where
  "forceCloseControlChannel st =
     handleDisconnect
       (st\<lparr>es_controlReader := False, es_controlWriter := False, es_controlSocket := False\<rparr>)"

text \<open>The body of one check, at the time \<open>now\<close> (\<open>Date.now()\<close>, milliseconds).\<close>

definition watchdog_check :: "int \<Rightarrow> int \<Rightarrow> edge_control \<Rightarrow> edge_control" where
  "watchdog_check startedAt now st =
     (let elapsed = now - lastHeartbeatAt st;
          timeSinceStarted = now - startedAt
      in if elapsed > 20000 \<and> timeSinceStarted > 10000
         then forceCloseControlChannel st else st)"

text \<open>
  The loop of \<open>startHeartbeatWatchdog\<close> for the watchdog \<open>me\<close>.  Each round sleeps
  with \<open>setTimeout(resolve, 5000)\<close>: it wakes \<open>5000 + late\<close> milliseconds after
  \<open>clock\<close>, the time the sleep began, where \<open>late\<close> is the timer's lateness; \<open>status\<close>
  is what \<open>stateProvider()\<close> then answers.  The loop returns when the watchdog has been
  replaced or stopped, or the container is not running; its \<open>finally\<close> clears the
  field.  The empty list is the loop still asleep.
\<close>

definition watchdog_sleep_ms :: int where
  "watchdog_sleep_ms = 5000"

fun watchdog_loop ::
  "nat \<Rightarrow> int \<Rightarrow> int \<Rightarrow> edge_control \<Rightarrow> (nat \<times> container_status) list \<Rightarrow> edge_control" where
  "watchdog_loop me startedAt clock st [] = st"
| "watchdog_loop me startedAt clock st ((late, status) # wakes) =
     (let now = clock + watchdog_sleep_ms + int late in
      if heartbeatWatchdogInterval st \<noteq> Some me
      then st\<lparr>heartbeatWatchdogInterval := None\<rparr>
      else if status \<noteq> Running
      then st\<lparr>heartbeatWatchdogInterval := None\<rparr>
      else
        (let st' = watchdog_check startedAt now st in
         watchdog_loop me startedAt now st' wakes))"

definition startHeartbeatWatchdog ::
  "nat \<Rightarrow> int \<Rightarrow> edge_control \<Rightarrow> (nat \<times> container_status) list \<Rightarrow> edge_control" where
  "startHeartbeatWatchdog me startedAt st wakes =
     (if heartbeatWatchdogInterval st \<noteq> None then st
      else watchdog_loop me startedAt startedAt (st\<lparr>heartbeatWatchdogInterval := Some me\<rparr>) wakes)"

section \<open>Edge side: the object-store adapter, \<open>DELETE\<close>\<close>

text \<open>
  The two buckets of \<open>fetchFromR2\<close>.  A bucket holds objects by key and the multipart
  uploads in progress, each a key with an upload id.  \<open>head\<close>, \<open>delete\<close> and
  \<open>resumeMultipartUpload(...).abort()\<close> are the bucket's own operations.
\<close>

record 'o bucket =
  objects :: "string \<rightharpoonup> 'o"
  uploads :: "(string \<times> string) list"

record 'o r2_store =
  DYNMAP_BUCKET :: "'o bucket"
  DATA_BUCKET :: "'o bucket"

text \<open>The bucket names of the environment; \<open>None\<close> is a name that is not set.\<close>

record r2_names =
  DYNMAP_BUCKET_NAME :: "string option"
  DATA_BUCKET_NAME :: "string option"

definition startsWith :: "string \<Rightarrow> string \<Rightarrow> bool" where
  "startsWith s pre = (take (length pre) s = pre)"

text \<open>The routing at the head of \<open>fetchFromR2\<close>: whether the private (data) bucket is
  used, and the \<open>pathname\<close> left.\<close>

definition strip_bucket :: "string \<Rightarrow> string \<Rightarrow> string" where
  "strip_bucket name pathname =
     (let rest = drop (length name + 1) pathname in if rest = [] then ''/'' else rest)"

definition names_prefix :: "string option \<Rightarrow> string \<Rightarrow> bool" where
  "names_prefix name pathname =
     (case name of Some n \<Rightarrow> n \<noteq> [] \<and> startsWith pathname (''/'' @ n) | None \<Rightarrow> False)"

definition route_r2 :: "r2_names \<Rightarrow> string \<Rightarrow> bool \<times> string" where
  "route_r2 names url_pathname =
     (let pathname =
            (if startsWith url_pathname ''/r2'' then
               (let rest = drop 3 url_pathname
                in if (case rest of c # _ \<Rightarrow> c \<noteq> CHR ''/'' | [] \<Rightarrow> True) then ''/'' @ rest else rest)
             else url_pathname)
      in if names_prefix (DYNMAP_BUCKET_NAME names) pathname
         then (False, strip_bucket (the (DYNMAP_BUCKET_NAME names)) pathname)
         else if names_prefix (DATA_BUCKET_NAME names) pathname
         then (True, strip_bucket (the (DATA_BUCKET_NAME names)) pathname)
         else (False, pathname))"

text \<open>The \<open>DELETE\<close> case on one bucket: the status of the response and the bucket
  after it.  \<open>uploadId\<close> is \<open>url.searchParams.get("uploadId")\<close>.\<close>

definition bucket_delete ::
  "'o bucket \<Rightarrow> string \<Rightarrow> string option \<Rightarrow> nat \<times> 'o bucket" where
  "bucket_delete b key uploadId =
     (if uploadId \<noteq> None \<and> uploadId \<noteq> Some [] then
        (if (key, the uploadId) \<in> set (uploads b)
         then (204, b\<lparr>uploads := removeAll (key, the uploadId) (uploads b)\<rparr>)
         else (404, b))
      else
        (case objects b key of
           None \<Rightarrow> (204, b)
         | Some exists \<Rightarrow> (204, b\<lparr>objects := (objects b)(key := None)\<rparr>)))"

text \<open>
  \<open>fetchFromR2\<close> on a \<open>DELETE\<close> request.  A request whose routed \<open>pathname\<close> is
  \<open>/\<close> is answered as a bucket listing before the method is looked at, with status 200
  and the store as it was.
\<close>

definition fetchFromR2_DELETE ::
  "r2_names \<Rightarrow> 'o r2_store \<Rightarrow> string \<Rightarrow> string option \<Rightarrow> nat \<times> 'o r2_store" where
  "fetchFromR2_DELETE names store url_pathname uploadId =
     (let (private, pathname) = route_r2 names url_pathname in
      if pathname = ''/'' then (200, store)
      else
        let pathWithoutLeadingSlash =
              (if startsWith pathname ''/'' then drop 1 pathname else pathname)
        in if private then
             (let (status, b) = bucket_delete (DATA_BUCKET store) pathWithoutLeadingSlash uploadId
              in (status, store\<lparr>DATA_BUCKET := b\<rparr>))
           else
             (let (status, b) = bucket_delete (DYNMAP_BUCKET store) pathWithoutLeadingSlash uploadId
              in (status, store\<lparr>DYNMAP_BUCKET := b\<rparr>)))"

section \<open>Inputs used below\<close>

text \<open>Two control messages as the edge side writes them, and their frames.\<close>

definition allocated_json :: string where
  \<open>allocated_json = ''{"type":"channel_allocated","requestId":"req_0_1","port":8085}''\<close>

definition error_json :: string where
  \<open>error_json = ''{"type":"error","requestId":"req_1_2","message":"Requested channel already in use"}''\<close>

text \<open>A chunked response with the body \<open>hello\<close>: its header block, and its body up to
  the middle of the terminating \<open>0 CR LF CR LF\<close>.\<close>

definition chunked_head :: string where
  "chunked_head = ''HTTP/1.1 200 OK'' @ CRLF @ ''Transfer-Encoding: chunked'' @ CRLF @ CRLF"

definition chunked_body_start :: string where
  "chunked_body_start = ''5'' @ CRLF @ ''hello'' @ CRLF @ ''0'' @ CRLF"

definition connected_reader :: "'m control_reader" where
  "connected_reader = \<lparr>controlBuffer = [], isConnected = True, dispatched = []\<rparr>"

definition idle_channel :: DataChannelState where
  "idle_channel = \<lparr>port = 8085, currentSocket = True, inUse = True, handlerAttached = False\<rparr>"

text \<open>The reader after the header block and the bytes of \<open>chunked_body_start\<close>.\<close>

definition after_head :: response_reader where
  "after_head =
     \<lparr>buffer = [], headersParsed = True, statusCode = 200, statusText = ''OK'',
      headers = [(''transfer-encoding'', ''chunked'')], bodyChunks = [chunked_body_start],
      contentLength = None, isChunked = True, bodyReceived = 13, responseComplete = False,
      channel = idle_channel\<lparr>handlerAttached := True\<rparr>, outcome = Pending\<rparr>"

text \<open>A \<open>204\<close> response that declares both framings and carries bytes after its
  header block.\<close>

definition no_content_response :: string where
  "no_content_response =
     ''HTTP/1.1 204 No Content'' @ CRLF @ ''Content-Length: 10'' @ CRLF @
     ''Transfer-Encoding: chunked'' @ CRLF @ CRLF @ ''abc''"

text \<open>A \<open>100\<close> response.\<close>

definition continue_response :: string where
  "continue_response = ''HTTP/1.1 100 Continue'' @ CRLF @ CRLF"

text \<open>A pool of two channels, both in use, and one with a free channel that has no
  socket yet; surroundings in which the peer never answers.\<close>

definition busy_pool :: proxy_server where
  "busy_pool =
     \<lparr>controlSocket = True,
      dataChannels =
        [\<lparr>port = 8085, currentSocket = True, inUse = True, handlerAttached = True\<rparr>,
         \<lparr>port = 8086, currentSocket = False, inUse = True, handlerAttached = False\<rparr>],
      pendingAllocations = [], control_sent = [], successfulRequests = 0,
      serviceUnavailableCount = 0\<rparr>"

definition free_pool :: proxy_server where
  "free_pool =
     \<lparr>controlSocket = True,
      dataChannels =
        [\<lparr>port = 8085, currentSocket = True, inUse = True, handlerAttached = True\<rparr>,
         \<lparr>port = 8086, currentSocket = False, inUse = False, handlerAttached = False\<rparr>],
      pendingAllocations = [], control_sent = [], successfulRequests = 0,
      serviceUnavailableCount = 0\<rparr>"

definition no_answer :: ingress_env where
  "no_answer =
     \<lparr>alloc_reply = None, socket_arrives = False,
      exchange = Inl (new_Error ''Response timeout after 10 minutes'')\<rparr>"

text \<open>A request with a body and no framing header.\<close>

definition post_request :: http_request where
  "post_request =
     \<lparr>req_method = ''POST'', req_path = ''/bucketA/k?x=1'', req_host = ''r2.example'',
      req_headers = [(''accept'', ''*/*'')], req_body = Some [''hello'', '' world'']\<rparr>"

text \<open>The edge side with a free channel on 8085 and a busy one on 8086; a connect that
  succeeds; two responses of the adapter, one with a body and no framing header, one
  with no body.\<close>

definition edge0 :: edge_control where
  "edge0 =
     \<lparr>es_controlSocket = True, es_controlWriter = True, es_controlReader = True,
      es_dataChannels =
        [8085 \<mapsto> \<lparr>es_port = 8085, es_socket = False, es_reader = False, es_writer = False,
                   es_inUse = False\<rparr>,
         8086 \<mapsto> \<lparr>es_port = 8086, es_socket = True, es_reader = True, es_writer = True,
                   es_inUse = True\<rparr>],
      es_isConnected = True, disconnectResolve = True, disconnect_signalled = False,
      lastHeartbeatAt = 100000, heartbeatWatchdogInterval = Some 1, es_log = []\<rparr>"

definition connect_ok :: connect_env where
  "connect_ok = \<lparr>tcp_port = True, opened = None\<rparr>"

definition open_channel :: es_channel where
  "open_channel =
     \<lparr>es_port = 8085, es_socket = True, es_reader = True, es_writer = True, es_inUse = True\<rparr>"

definition method_not_allowed :: es_response where
  "method_not_allowed =
     \<lparr>r_status = 405, r_statusText = ''Method Not Allowed'',
      r_headers = [(''content-type'', ''text/plain;charset=UTF-8'')],
      r_body = Some [''Method not allowed'']\<rparr>"

definition deleted_response :: es_response where
  "deleted_response =
     \<lparr>r_status = 204, r_statusText = ''No Content'',
      r_headers = [(''x-amz-request-id'', ''abc'')], r_body = None\<rparr>"

text \<open>Two named buckets and a store with one object.\<close>

definition bucket_names :: r2_names where
  "bucket_names = \<lparr>DYNMAP_BUCKET_NAME = Some ''bucketA'', DATA_BUCKET_NAME = Some ''bucketB''\<rparr>"

definition small_store :: "nat r2_store" where
  "small_store =
     \<lparr>DYNMAP_BUCKET = \<lparr>objects = [''hello.txt'' \<mapsto> 3], uploads = []\<rparr>,
      DATA_BUCKET = \<lparr>objects = Map.empty, uploads = []\<rparr>\<rparr>"

section \<open>Properties: the control channel\<close>

lemma js_slice_take: "js_slice xs 0 (int n) = take n xs"
  by (auto simp add: js_slice_def rel_index_def min_def)

lemma js_slice_drop: "length xs \<le> m \<Longrightarrow> js_slice xs (int n) (int m) = drop n xs"
  by (auto simp add: js_slice_def rel_index_def min_def)

lemma js_slice_mid: "js_slice xs (int a) (int b) = take (b - a) (drop a xs)"
  by (auto simp add: js_slice_def rel_index_def min_def)

lemma readUInt32LE_append: "4 \<le> length buf \<Longrightarrow> readUInt32LE (buf @ ys) = readUInt32LE buf"
  by (auto simp: readUInt32LE_def split: list.splits)

lemma readUInt32LE_Some: "4 \<le> length buf \<Longrightarrow> \<exists>n. readUInt32LE buf = Some n"
  by (cases buf; cases "tl buf"; cases "tl (tl buf)"; cases "tl (tl (tl buf))")
     (auto simp: readUInt32LE_def)

lemma le32_decompose:
  fixes n :: nat
  assumes "n < 4294967296"
  shows "n mod 256 + 256 * (n div 256 mod 256) + 65536 * (n div 65536 mod 256)
      + 16777216 * (n div 16777216 mod 256) = n"
proof -
  have a: "n mod 65536 = 256 * (n div 256 mod 256) + n mod 256"
    using mod_mult2_eq[of n 256 256] by simp
  have b: "n mod 16777216 = 65536 * (n div 65536 mod 256) + n mod 65536"
    using mod_mult2_eq[of n 65536 256] by simp
  have c: "n mod 4294967296 = 16777216 * (n div 16777216 mod 256) + n mod 16777216"
    using mod_mult2_eq[of n 16777216 256] by simp
  from a b c assms show ?thesis by simp
qed

lemma readUInt32LE_write:
  "n < 4294967296 \<Longrightarrow> readUInt32LE (writeUInt32LE n @ rest) = Some n"
  using le32_decompose[of n] by (simp add: readUInt32LE_def writeUInt32LE_def)

lemma length_encode_frame: "length (encode_frame p) = 4 + length p"
  by (simp add: encode_frame_def writeUInt32LE_def)

lemma es_parse_encode_frame:
  assumes "length p < 4294967296"
  shows "es_parseControlMessage jp (encode_frame p) = jp p"
proof -
  have r: "readUInt32LE (encode_frame p) = Some (length p)"
    using assms by (simp add: encode_frame_def readUInt32LE_write)
  have "js_slice (encode_frame p) (int 4) (int (4 + length p)) = p"
    unfolding js_slice_mid by (simp add: encode_frame_def writeUInt32LE_def)
  then have s: "js_slice (encode_frame p) 4 (4 + int (length p)) = p" by simp
  show ?thesis
    unfolding es_parseControlMessage_def by (simp add: r s length_encode_frame)
qed

text \<open>Bytes appended to the rolling buffer do not change the frames already complete
  in it: extraction continues from what was left.\<close>

lemma extract_frames_append:
  "extract_frames jp buf = (ms, left) \<Longrightarrow>
   extract_frames jp (buf @ ys) =
     (ms @ fst (extract_frames jp (left @ ys)), snd (extract_frames jp (left @ ys)))"
proof (induction jp buf arbitrary: ms left rule: extract_frames.induct)
  case (1 jp buf)
  show ?case
  proof (cases "length buf < 4")
    case True
    with "1.prems" show ?thesis by (simp add: extract_frames.simps[of jp buf])
  next
    case False
    then obtain n where n: "readUInt32LE buf = Some n"
      using readUInt32LE_Some[of buf] by auto
    show ?thesis
    proof (cases "length buf < 4 + n")
      case True
      with False n "1.prems" show ?thesis by (simp add: extract_frames.simps[of jp buf])
    next
      case big: False
      obtain ms' left' where r: "extract_frames jp (drop (4 + n) buf) = (ms', left')"
        by force
      have n': "readUInt32LE (buf @ ys) = Some n"
        using False n by (simp add: readUInt32LE_append)
      have IH: "extract_frames jp (drop (4 + n) buf @ ys) =
          (ms' @ fst (extract_frames jp (left' @ ys)), snd (extract_frames jp (left' @ ys)))"
        using "1.IH"[OF False n refl big refl _ r] by (simp add: js_slice_drop del: of_nat_add)
      have L: "left = left'"
        and M: "ms = (case es_parseControlMessage jp (take (4 + n) buf) of
                        Some m \<Rightarrow> m # ms' | None \<Rightarrow> ms')"
        using "1.prems" False n big r
        by (auto simp add: extract_frames.simps[of jp buf] js_slice_drop js_slice_take
              simp del: of_nat_add split: option.splits)
      show ?thesis
        using False n' big IH L M
        by (auto simp add: extract_frames.simps[of jp "buf @ ys"] js_slice_drop js_slice_take
              simp del: of_nat_add split: option.splits)
    qed
  qed
qed

text \<open>What extraction leaves holds no complete frame.\<close>

lemma extract_frames_idem:
  "extract_frames jp (snd (extract_frames jp buf)) = ([], snd (extract_frames jp buf))"
proof (induction jp buf rule: extract_frames.induct)
  case (1 jp buf)
  show ?case
  proof (cases "length buf < 4")
    case True
    then show ?thesis by (simp add: extract_frames.simps[of jp buf])
  next
    case False
    then obtain n where n: "readUInt32LE buf = Some n"
      using readUInt32LE_Some[of buf] by auto
    show ?thesis
    proof (cases "length buf < 4 + n")
      case True
      with False n show ?thesis by (simp add: extract_frames.simps[of jp buf])
    next
      case big: False
      have e: "snd (extract_frames jp buf) =
          snd (extract_frames jp (js_slice buf (int (4 + n)) (int (length buf))))"
        using False n big
        by (subst extract_frames.simps)
           (simp add: Let_def del: of_nat_add split: prod.splits option.splits)
      show ?thesis unfolding e using "1.IH"[OF False n refl big refl refl] .
    qed
  qed
qed

text \<open>A buffer made of whole frames is taken apart into exactly their payloads.\<close>

lemma extract_frames_encoded:
  "\<forall>p \<in> set ps. length p < 4294967296 \<Longrightarrow>
   extract_frames jp (concat (map encode_frame ps)) = (List.map_filter jp ps, [])"
proof (induction ps)
  case Nil
  show ?case by (simp add: extract_frames.simps[of jp "[]"] List.map_filter_simps)
next
  case (Cons p ps)
  let ?rest = "concat (map encode_frame ps)"
  let ?buf = "encode_frame p @ ?rest"
  have len: "length p < 4294967296" using Cons.prems by simp
  have r: "readUInt32LE ?buf = Some (length p)"
    using len by (simp add: encode_frame_def readUInt32LE_write)
  have l4: "\<not> length ?buf < 4" by (simp add: length_encode_frame)
  have "take (length (encode_frame p)) ?buf = encode_frame p" by simp
  then have tk: "js_slice ?buf 0 (int (4 + length p)) = encode_frame p"
    unfolding js_slice_take by (simp only: length_encode_frame)
  have "drop (length (encode_frame p)) ?buf = ?rest" by simp
  then have dr: "js_slice ?buf (int (4 + length p)) (int (length ?buf)) = ?rest"
    by (subst js_slice_drop) (simp_all only: length_encode_frame order_refl)
  have IH: "extract_frames jp ?rest = (List.map_filter jp ps, [])"
    using Cons by simp
  have big: "\<not> length ?buf < 4 + length p" by (simp add: length_encode_frame)
  show ?case
    apply (subst concat.simps list.map)+
    apply (subst extract_frames.simps)
    apply (simp only: l4 r big tk dr IH es_parse_encode_frame[OF len] if_False option.case
             Let_def prod.case)
    apply (simp add: List.map_filter_simps split: option.splits)
    done
qed

text \<open>Reading in pieces is reading at once: after any sequence of reads the edge side
  has handled the frames of the concatenated bytes, and holds the rest.\<close>

lemma readControlMessages_chunks:
  "isConnected st \<Longrightarrow> extract_frames jp (controlBuffer st) = ([], controlBuffer st) \<Longrightarrow>
   readControlMessages jp st (map Chunk reads) =
     st\<lparr>controlBuffer := snd (extract_frames jp (controlBuffer st @ concat reads)),
        dispatched := dispatched st @ fst (extract_frames jp (controlBuffer st @ concat reads))\<rparr>"
proof (induction reads arbitrary: st)
  case Nil
  then show ?case by simp
next
  case (Cons r reads)
  obtain ms left where e: "extract_frames jp (controlBuffer st @ r) = (ms, left)" by force
  have i: "extract_frames jp left = ([], left)"
    using extract_frames_idem[of jp "controlBuffer st @ r"] e by simp
  from extract_frames_append[OF e, of "concat reads"] Cons.prems
    Cons.IH[of "st\<lparr>controlBuffer := left, dispatched := dispatched st @ ms\<rparr>"] i
  show ?case by (simp add: e)
qed

lemma es_reader_frames:
  assumes "\<forall>p \<in> set payloads. length p < 4294967296"
    and "concat reads = concat (map encode_frame payloads)"
  shows "readControlMessages jp connected_reader (map Chunk reads) =
     \<lparr>controlBuffer = [], isConnected = True, dispatched = List.map_filter jp payloads\<rparr>"
proof -
  have "extract_frames jp (controlBuffer (connected_reader :: 'a control_reader)) =
      ([], controlBuffer (connected_reader :: 'a control_reader))"
    by (simp add: connected_reader_def extract_frames.simps[of jp "[]"])
  then show ?thesis
    using readControlMessages_chunks[of connected_reader jp reads]
      extract_frames_encoded[OF assms(1), of jp] assms(2)
    by (simp add: connected_reader_def)
qed

lemma length_allocated_json: "length allocated_json = 62"
  by (simp add: allocated_json_def)

lemma length_error_json: "length error_json = 83"
  by (simp add: error_json_def)

lemma cs_split_frame:
  "cs_control_data text_length json_parse
     [take 10 (encode_frame allocated_json), drop 10 (encode_frame allocated_json)] = []"
  by (simp add: cs_control_data_def List.map_filter_def cs_parseControlMessage_def
        encode_frame_def writeUInt32LE_def readUInt32LE_def allocated_json_def)

lemma cs_two_frames:
  "cs_control_data text_length json_parse
     [encode_frame allocated_json @ encode_frame error_json] =
   (if text_length (encode_frame allocated_json @ encode_frame error_json) < 4 then []
    else List.map_filter json_parse [allocated_json])"
  by (simp add: cs_control_data_def List.map_filter_def cs_parseControlMessage_def
        encode_frame_def writeUInt32LE_def readUInt32LE_def allocated_json_def js_slice_def
        rel_index_def)

text \<open>
  C1 (fails on the container side).  The claim: both frame readers keep partial bytes
  in a rolling buffer, so that a frame split over two reads is still handled and two
  frames in one read are both handled.  The edge side does; the container side keeps
  nothing between reads and parses one frame per read.  For the \<open>channel_allocated\<close>
  frame cut after 10 bytes the container side handles no message, where the edge side
  handles the one message; for that frame and an \<open>error\<close> frame in one read the
  container side handles at most the first, where the edge side handles both.
\<close>

theorem C1_container_side_loses_frames:
  "cs_control_data text_length json_parse
     [take 10 (encode_frame allocated_json), drop 10 (encode_frame allocated_json)] = []
   \<and> dispatched (readControlMessages json_parse connected_reader
        [Chunk (take 10 (encode_frame allocated_json)),
         Chunk (drop 10 (encode_frame allocated_json))])
      = List.map_filter json_parse [allocated_json]
   \<and> cs_control_data text_length json_parse
        [encode_frame allocated_json @ encode_frame error_json]
      = (if text_length (encode_frame allocated_json @ encode_frame error_json) < 4 then []
         else List.map_filter json_parse [allocated_json])
   \<and> dispatched (readControlMessages json_parse connected_reader
        [Chunk (encode_frame allocated_json @ encode_frame error_json)])
      = List.map_filter json_parse [allocated_json, error_json]"
proof -
  have a: "\<forall>p \<in> set [allocated_json]. length p < 4294967296"
    by (simp add: length_allocated_json)
  have b: "\<forall>p \<in> set [allocated_json, error_json]. length p < 4294967296"
    by (simp add: length_allocated_json length_error_json)
  have "readControlMessages json_parse connected_reader
      (map Chunk [take 10 (encode_frame allocated_json), drop 10 (encode_frame allocated_json)])
      = \<lparr>controlBuffer = [], isConnected = True,
         dispatched = List.map_filter json_parse [allocated_json]\<rparr>"
    by (rule es_reader_frames[OF a]) simp
  moreover have "readControlMessages json_parse connected_reader
      (map Chunk [encode_frame allocated_json @ encode_frame error_json])
      = \<lparr>controlBuffer = [], isConnected = True,
         dispatched = List.map_filter json_parse [allocated_json, error_json]\<rparr>"
    by (rule es_reader_frames[OF b]) simp
  ultimately show ?thesis
    using cs_split_frame[of text_length json_parse] cs_two_frames[of text_length json_parse]
    by simp
qed

section \<open>Properties: chunked decoding\<close>

lemma scan_minus6: "scan_line_end (''-6'' @ CRLF) 0 = 2"
  by (simp add: scan_line_end.simps js_at_def)

lemma chunk_size_minus6: "chunk_size_of (js_slice (''-6'' @ CRLF) 0 2) = Num (-6)"
  by code_simp

text \<open>On the four bytes \<open>-6 CR LF\<close> a round of the loop reads the size \<open>-6\<close>, takes
  an empty chunk and moves \<open>pos\<close> from 0 to \<open>4 - 6 + 2 = 0\<close>: no run from there
  returns.\<close>

lemma decode_loop_minus6_never:
  assumes "decode_loop c p a = Some y"
  shows "\<not> (c = ''-6'' @ CRLF \<and> p = 0)"
proof (rule decode_loop.raw_induct
    [where P="\<lambda>c p a y. \<not> (c = ''-6'' @ CRLF \<and> p = 0)", OF _ assms], goal_cases)
  case (1 f c p a y)
  show ?case
  proof
    assume cp: "c = ''-6'' @ CRLF \<and> p = 0"
    with 1(2) have "f c 0 (a @ [js_slice c 4 (-2)]) = Some y"
      using scan_minus6 chunk_size_minus6 by (simp add: Let_def)
    with 1(1) cp show False by blast
  qed
qed

lemma decode_loop_minus6: "decode_loop (''-6'' @ CRLF) 0 acc = None"
  using decode_loop_minus6_never[of "''-6'' @ CRLF" 0 acc]
  by (cases "decode_loop (''-6'' @ CRLF) 0 acc") auto

text \<open>
  C10 (fails).  The claim: both chunked decoders are total on arbitrary bytes and only
  ever drop what is malformed.  \<open>parseInt\<close> accepts a sign, and neither loop checks it:
  on the input \<open>-6 CR LF\<close> both decoders run forever (each round appends an empty
  chunk and returns to position 0).
\<close>

theorem C10_decoders_do_not_return_on_negative_size:
  "cs_decodeChunkedBody [''-6'' @ CRLF] = None \<and> es_decodeChunkedBody (''-6'' @ CRLF) = None"
  using decode_loop_minus6[of "[]"]
  by (simp add: cs_decodeChunkedBody_def es_decodeChunkedBody_def)

section \<open>Properties: the response reader of the container side\<close>

lemma findHeaderEnd_chunked1: "findHeaderEnd (chunked_head @ chunked_body_start) = Some 43"
  by code_simp

lemma findHeaderEnd_chunked2:
  "findHeaderEnd (chunked_head @ chunked_body_start @ CRLF) = Some 43"
  by code_simp

lemma split_chunked_head:
  "split CRLF (take 43 chunked_head) = [''HTTP/1.1 200 OK'', ''Transfer-Encoding: chunked'']"
  by code_simp

lemma status_match_200: "status_match ''HTTP/1.1 200 OK'' = Some (''200'', '' OK'')"
  by code_simp

lemma status_text_200: "js_trim '' OK'' = ''OK''"
  by code_simp

lemma digits_val_200: "digits_val 10 ''200'' = 200"
  by code_simp

lemma indexOf_te: "indexOf ''Transfer-Encoding: chunked'' '':'' = Some 17"
  by code_simp

lemma key_te: "toLowerCase (js_trim ''Transfer-Encoding'') = ''transfer-encoding''"
  by code_simp

lemma value_te: "js_trim '' chunked'' = ''chunked''"
  by code_simp

lemma parse_header_lines_te:
  "parse_header_lines accepts [''Transfer-Encoding: chunked''] [] =
     (if accepts ''transfer-encoding'' ''chunked''
      then ([(''transfer-encoding'', ''chunked'')], True) else ([], False))"
  by (simp add: parse_header_lines.simps indexOf_te key_te value_te Let_def)

lemma includes_chunked: "js_includes (toLowerCase ''chunked'') ''chunked''"
  by code_simp

lemma not_no_body_200: "\<not> no_body_status 200"
  by code_simp

lemma status_ok_200: "response_status_ok 200"
  by (simp add: response_status_ok_def)

lemma tail_start:
  "\<not> js_includes (js_slice chunked_body_start (-5) (int (length chunked_body_start)))
       (''0'' @ CRLF @ CRLF)"
  by code_simp

lemma tail_crlf:
  "\<not> js_includes (js_slice CRLF (-5) (int (length CRLF))) (''0'' @ CRLF @ CRLF)"
  by code_simp

lemma tail_whole:
  "js_includes
     (js_slice (chunked_body_start @ CRLF) (-5) (int (length (chunked_body_start @ CRLF))))
     (''0'' @ CRLF @ CRLF)"
  by code_simp

lemma decode_two_reads: "cs_decodeChunkedBody [chunked_body_start, CRLF] = Some ''hello''"
  by code_simp

lemma decode_one_read: "cs_decodeChunkedBody [chunked_body_start @ CRLF] = Some ''hello''"
  by code_simp

lemma length_chunked_body_start: "length chunked_body_start = 13"
  by code_simp

lemma length_chunked_head: "length chunked_head = 47"
  by code_simp

lemma drop_chunked_head: "drop 47 (chunked_head @ rest) = rest"
  using length_chunked_head by simp

lemmas reader_eval =
  dataHandler_def readHTTPResponseFromDataChannel_def split_chunked_head status_match_200
  status_text_200 digits_val_200 parse_header_lines_te Let_def headers_get_def includes_chunked
  not_no_body_200 finish_if_complete_def isResponseComplete_def after_head_def
  drop_chunked_head length_chunked_body_start length_chunked_head

text \<open>The first read: the header block and the body up to \<open>0 CR LF\<close>.\<close>

lemma first_read:
  "dataHandler accepts (readHTTPResponseFromDataChannel idle_channel)
     (chunked_head @ chunked_body_start) =
   (if accepts ''transfer-encoding'' ''chunked'' then after_head
    else (readHTTPResponseFromDataChannel idle_channel)
           \<lparr>buffer := chunked_head @ chunked_body_start\<rparr>)"
  using tail_start
  by (cases "accepts ''transfer-encoding'' ''chunked''")
     (simp_all add: reader_eval findHeaderEnd_chunked1)

text \<open>The second read brings the last CR LF: the reader looks for the terminator in
  these two bytes alone and goes on waiting.\<close>

lemma second_read:
  "dataHandler accepts after_head CRLF =
     after_head\<lparr>bodyChunks := [chunked_body_start, CRLF], bodyReceived := 15\<rparr>"
  using tail_crlf
  by (simp add: dataHandler_def after_head_def Let_def finish_if_complete_def
        isResponseComplete_def)

lemma second_read_refused:
  "\<not> accepts ''transfer-encoding'' ''chunked'' \<Longrightarrow>
   dataHandler accepts
     ((readHTTPResponseFromDataChannel idle_channel)
        \<lparr>buffer := chunked_head @ chunked_body_start\<rparr>) CRLF =
   (readHTTPResponseFromDataChannel idle_channel)
     \<lparr>buffer := chunked_head @ chunked_body_start @ CRLF\<rparr>"
  by (simp add: reader_eval findHeaderEnd_chunked2)

lemma close_after_second_read:
  "closeHandler (after_head\<lparr>bodyChunks := [chunked_body_start, CRLF], bodyReceived := 15\<rparr>) =
   after_head
     \<lparr>bodyChunks := [chunked_body_start, CRLF], bodyReceived := 15, responseComplete := True,
      channel := idle_channel\<lparr>inUse := False\<rparr>,
      outcome := Resolved \<lparr>resp_status = 200, resp_statusText = ''OK'',
                             resp_headers = [(''transfer-encoding'', ''chunked'')],
                             resp_body = Some ''hello''\<rparr>\<rparr>"
  by (simp add: closeHandler_def after_head_def cleanup_def resolve_def finalizeResponse_def
        decode_two_reads idle_channel_def status_ok_200)

lemma whole_in_one_read:
  "dataHandler accepts (readHTTPResponseFromDataChannel idle_channel)
     (chunked_head @ chunked_body_start @ CRLF) =
   (if accepts ''transfer-encoding'' ''chunked'' then
      after_head
        \<lparr>bodyChunks := [chunked_body_start @ CRLF], bodyReceived := 15,
         responseComplete := True, channel := idle_channel\<lparr>inUse := False\<rparr>,
         outcome := Resolved \<lparr>resp_status = 200, resp_statusText = ''OK'',
                                resp_headers = [(''transfer-encoding'', ''chunked'')],
                                resp_body = Some ''hello''\<rparr>\<rparr>
    else (readHTTPResponseFromDataChannel idle_channel)
           \<lparr>buffer := chunked_head @ chunked_body_start @ CRLF\<rparr>)"
  using tail_whole
  by (cases "accepts ''transfer-encoding'' ''chunked''")
     (simp_all add: reader_eval findHeaderEnd_chunked2 cleanup_def resolve_def
        finalizeResponse_def decode_one_read idle_channel_def status_ok_200)

text \<open>
  C2 (fails).  The claim: a chunked response whose terminating \<open>0 CR LF CR LF\<close> is
  split over two reads is still seen to be complete and is finalized without waiting
  for the close or the timeout.  \<open>isResponseComplete\<close> looks for the terminator in the
  last five bytes of the last read only.  With the header block and \<open>5 CR LF hello CR
  LF 0 CR LF\<close> in a first read and \<open>CR LF\<close> in a second, the promise is still pending
  after both (whatever headers the platform accepts); the same bytes in one read
  resolve it with the body \<open>hello\<close>.  The split response is resolved only when the
  peer closes the socket, and rejected when the timer fires first.
\<close>

theorem C2_split_terminator_is_not_seen:
  "outcome (run_reader accepts (readHTTPResponseFromDataChannel idle_channel)
      [DataArrived (chunked_head @ chunked_body_start), DataArrived CRLF]) = Pending
   \<and> outcome (run_reader accepts (readHTTPResponseFromDataChannel idle_channel)
        [DataArrived (chunked_head @ chunked_body_start @ CRLF)])
      = (if accepts ''transfer-encoding'' ''chunked''
         then Resolved \<lparr>resp_status = 200, resp_statusText = ''OK'',
                          resp_headers = [(''transfer-encoding'', ''chunked'')],
                          resp_body = Some ''hello''\<rparr>
         else Pending)
   \<and> outcome (run_reader accepts (readHTTPResponseFromDataChannel idle_channel)
        [DataArrived (chunked_head @ chunked_body_start), DataArrived CRLF, SocketClosed])
      = (if accepts ''transfer-encoding'' ''chunked''
         then Resolved \<lparr>resp_status = 200, resp_statusText = ''OK'',
                          resp_headers = [(''transfer-encoding'', ''chunked'')],
                          resp_body = Some ''hello''\<rparr>
         else Rejected ''Connection closed before headers received'')
   \<and> outcome (run_reader accepts (readHTTPResponseFromDataChannel idle_channel)
        [DataArrived (chunked_head @ chunked_body_start), DataArrived CRLF, TimeoutFired])
      = Rejected ''Response timeout after 10 minutes''"
proof (cases "accepts ''transfer-encoding'' ''chunked''")
  case True
  then show ?thesis
    by (simp add: run_reader_def on_event_def first_read second_read close_after_second_read
          whole_in_one_read timeoutHandler_def cleanup_def close_returned_def)
       (simp add: after_head_def)
next
  case False
  then show ?thesis
    by (simp add: run_reader_def on_event_def first_read second_read_refused
          whole_in_one_read timeoutHandler_def cleanup_def closeHandler_def close_returned_def)
       (simp add: readHTTPResponseFromDataChannel_def)
qed

lemma on_event_completed:
  "responseComplete st \<Longrightarrow>
   responseComplete (on_event accepts st ev) \<and> outcome (on_event accepts st ev) = outcome st"
  by (cases ev)
     (simp_all add: on_event_def dataHandler_def closeHandler_def timeoutHandler_def
        close_returned_def)

text \<open>Once the response is marked complete, nothing that happens on the channel
  changes what became of the promise.\<close>

lemma completed_reader_keeps_outcome:
  "responseComplete st \<Longrightarrow> outcome (run_reader accepts st evs) = outcome st"
proof (induction evs arbitrary: st)
  case Nil
  then show ?case by (simp add: run_reader_def)
next
  case (Cons ev evs)
  have "run_reader accepts st (ev # evs) = run_reader accepts (on_event accepts st ev) evs"
    by (simp add: run_reader_def)
  with Cons.IH[of "on_event accepts st ev"] on_event_completed[OF Cons.prems, of accepts ev]
  show ?case by simp
qed

lemma run_reader_data:
  "run_reader accepts st (DataArrived data # evs) =
     run_reader accepts (dataHandler accepts st data) evs"
  by (simp add: run_reader_def on_event_def)

text \<open>
  C6 (fails for 1xx other than 101).  The claim: for a response whose status is 204,
  304 or in 100..199 the reader finalizes right after the header block, with an empty
  body, whatever framing the headers declare.  When the data handler parses such a
  header block (the platform accepting every header line), the same call runs
  \<open>cleanup\<close> (the response is marked complete, the channel is freed and gets its
  default handlers back) and calls \<open>finalizeResponse\<close> with no body chunks, whatever
  \<open>Content-Length\<close> or \<open>Transfer-Encoding\<close> the headers \<open>hs\<close> declare and whatever bytes
  follow the header block.  For 204, 304 and 101 this resolves the promise with that
  status, the status text, the parsed headers and no body.  For every other status in
  100..199 the constructor of \<open>Response\<close> throws a \<open>RangeError\<close>: the promise is not
  resolved, and since \<open>cleanup\<close> has cleared the timer and detached the handlers,
  nothing that happens on the channel afterwards settles it.
\<close>

theorem C6_no_body_status_early_finalization:
  assumes "\<not> responseComplete st" and "\<not> headersParsed st"
    and "findHeaderEnd (buffer st @ data) = Some headerEnd"
    and "split CRLF (take headerEnd (buffer st @ data)) = statusLine # headerLines"
    and "parse_header_lines accepts headerLines (headers st) = (hs, True)"
    and "(code, reason) =
           (case status_match statusLine of
              Some (ds, rest) \<Rightarrow>
                (digits_val 10 ds, if js_trim rest = [] then ''OK'' else js_trim rest)
            | None \<Rightarrow> (statusCode st, statusText st))"
    and "code = 204 \<or> code = 304 \<or> (100 \<le> code \<and> code < 200)"
    and "st' = dataHandler accepts st data"
  shows "outcome st' =
           (if code = 204 \<or> code = 304 \<or> code = 101
            then Resolved \<lparr>resp_status = code, resp_statusText = reason, resp_headers = hs,
                            resp_body = None\<rparr>
            else Thrown ''RangeError'')
       \<and> responseComplete st'
       \<and> \<not> inUse (channel st')
       \<and> \<not> handlerAttached (channel st')
       \<and> bodyChunks st' = bodyChunks st
       \<and> (\<forall>evs. outcome (run_reader accepts st' evs) = outcome st')"
proof -
  have nb: "no_body_status code" using assms(7) by (simp add: no_body_status_def)
  have ok: "response_status_ok code \<longleftrightarrow> (code = 204 \<or> code = 304 \<or> code = 101)"
    using assms(7) by (auto simp: response_status_ok_def)
  have main: "outcome st' =
           (if code = 204 \<or> code = 304 \<or> code = 101
            then Resolved \<lparr>resp_status = code, resp_statusText = reason, resp_headers = hs,
                            resp_body = None\<rparr>
            else Thrown ''RangeError'')
       \<and> responseComplete st'
       \<and> \<not> inUse (channel st')
       \<and> \<not> handlerAttached (channel st')
       \<and> bodyChunks st' = bodyChunks st"
  proof (cases "status_match statusLine")
    case None
    with assms(6) have cr: "statusCode st = code" "statusText st = reason" by simp_all
    from None assms(1-5) nb ok cr show ?thesis
      unfolding assms(8)
      by (simp add: dataHandler_def Let_def cleanup_def resolve_def finalizeResponse_def)
  next
    case (Some m)
    obtain ds rest where m: "m = (ds, rest)" by (cases m)
    with Some assms(6) have cr: "digits_val 10 ds = code"
      "(if js_trim rest = [] then ''OK'' else js_trim rest) = reason" by simp_all
    from Some m assms(1-5) nb ok cr show ?thesis
      unfolding assms(8)
      by (simp add: dataHandler_def Let_def cleanup_def resolve_def finalizeResponse_def)
  qed
  then have "responseComplete st'" by simp
  then have "\<forall>evs. outcome (run_reader accepts st' evs) = outcome st'"
    by (simp add: completed_reader_keeps_outcome)
  with main show ?thesis by simp
qed

theorem C6_witness:
  "outcome (dataHandler (\<lambda>k v. True) (readHTTPResponseFromDataChannel idle_channel)
      continue_response) = Thrown ''RangeError''
   \<and> outcome (run_reader (\<lambda>k v. True) (readHTTPResponseFromDataChannel idle_channel)
        [DataArrived continue_response, SocketClosed, TimeoutFired]) = Thrown ''RangeError''
   \<and> \<not> inUse (channel (dataHandler (\<lambda>k v. True)
        (readHTTPResponseFromDataChannel idle_channel) continue_response))
   \<and> findHeaderEnd no_content_response = Some 71
   \<and> outcome (dataHandler (\<lambda>k v. True) (readHTTPResponseFromDataChannel idle_channel)
        no_content_response) =
      Resolved \<lparr>resp_status = 204, resp_statusText = ''No Content'',
                 resp_headers = [(''content-length'', ''10''), (''transfer-encoding'', ''chunked'')],
                 resp_body = None\<rparr>
   \<and> \<not> inUse (channel (dataHandler (\<lambda>k v. True)
        (readHTTPResponseFromDataChannel idle_channel) no_content_response))"
proof -
  let ?st = "readHTTPResponseFromDataChannel idle_channel"
  let ?acc = "\<lambda>k v. True"
  have 1: "\<not> responseComplete ?st" and 2: "\<not> headersParsed ?st"
    by (simp_all add: readHTTPResponseFromDataChannel_def)
  have b: "buffer ?st @ x = x" for x
    by (simp add: readHTTPResponseFromDataChannel_def)
  have h: "headers ?st = []" by (simp add: readHTTPResponseFromDataChannel_def)
  have c3: "findHeaderEnd (buffer ?st @ continue_response) = Some 21"
    unfolding b by code_simp
  have c4: "split CRLF (take 21 (buffer ?st @ continue_response)) =
      ''HTTP/1.1 100 Continue'' # []"
    unfolding b by code_simp
  have c5: "parse_header_lines ?acc [] (headers ?st) = ([], True)"
    by (simp add: parse_header_lines.simps h)
  have c6: "(100::nat, ''Continue'') =
      (case status_match ''HTTP/1.1 100 Continue'' of
         Some (ds, rest) \<Rightarrow>
           (digits_val 10 ds, if js_trim rest = [] then ''OK'' else js_trim rest)
       | None \<Rightarrow> (statusCode ?st, statusText ?st))"
    by code_simp
  have c7: "(100::nat) = 204 \<or> (100::nat) = 304 \<or> ((100::nat) \<le> 100 \<and> (100::nat) < 200)"
    by simp
  note c = C6_no_body_status_early_finalization[OF 1 2 c3 c4 c5 c6 c7 refl]
  have 0: "findHeaderEnd no_content_response = Some 71"
    by code_simp
  have n3: "findHeaderEnd (buffer ?st @ no_content_response) = Some 71"
    unfolding b by (rule 0)
  have n4: "split CRLF (take 71 (buffer ?st @ no_content_response)) =
      ''HTTP/1.1 204 No Content'' # [''Content-Length: 10'', ''Transfer-Encoding: chunked'']"
    unfolding b by code_simp
  have n5: "parse_header_lines ?acc
        [''Content-Length: 10'', ''Transfer-Encoding: chunked''] (headers ?st)
      = ([(''content-length'', ''10''), (''transfer-encoding'', ''chunked'')], True)"
    unfolding h by code_simp
  have n6: "(204::nat, ''No Content'') =
      (case status_match ''HTTP/1.1 204 No Content'' of
         Some (ds, rest) \<Rightarrow>
           (digits_val 10 ds, if js_trim rest = [] then ''OK'' else js_trim rest)
       | None \<Rightarrow> (statusCode ?st, statusText ?st))"
    by code_simp
  have n7: "(204::nat) = 204 \<or> (204::nat) = 304 \<or> ((100::nat) \<le> 204 \<and> (204::nat) < 200)"
    by simp
  note n = C6_no_body_status_early_finalization[OF 1 2 n3 n4 n5 n6 n7 refl]
  from c n 0 show ?thesis
    by (simp add: run_reader_data)
qed

section \<open>Properties: the ingress and the channel pool\<close>

lemma find_free_None: "find_free chs = None \<longleftrightarrow> (\<forall>ch \<in> set chs. inUse ch)"
  by (induction chs) auto

lemma allocate_saturated:
  "(\<forall>ch \<in> set (dataChannels st). inUse ch) \<Longrightarrow>
   allocateDataChannel st requestId reply = (Inl (new_Error ''No available data channels''), st)"
  using find_free_None[of "dataChannels st"] by (simp add: allocateDataChannel_def)

text \<open>An allocation fails in two ways only: saturation, exactly when every channel is
  in use, and the 10 second timeout.\<close>

lemma allocate_error:
  "fst (allocateDataChannel st requestId reply) = Inl e \<Longrightarrow>
   (e = new_Error ''No available data channels'' \<and> (\<forall>ch \<in> set (dataChannels st). inUse ch)) \<or>
   (e = new_Error ''Channel allocation timeout'' \<and>
    \<not> (\<forall>ch \<in> set (dataChannels st). inUse ch))"
  using find_free_None[of "dataChannels st"]
  by (auto simp: allocateDataChannel_def Let_def split: option.splits if_splits)

lemma proxy_request_error:
  assumes "fst (proxy_request st requestId env) = Inl e"
    and "\<not> (\<forall>ch \<in> set (dataChannels st). inUse ch)"
    and "\<forall>e'. exchange env = Inl e' \<longrightarrow> err_message e' \<noteq> ''No available data channels''"
  shows "err_message e \<noteq> ''No available data channels''"
proof (cases "allocateDataChannel st requestId (alloc_reply env)")
  case (Pair r st1)
  show ?thesis
  proof (cases r)
    case (Inl a)
    with Pair assms(1) have "a = e" by (simp add: proxy_request_def)
    with Pair Inl allocate_error[of st requestId "alloc_reply env" e] assms(2)
    show ?thesis by auto
  next
    case (Inr p)
    with Pair assms(1) assms(3) show ?thesis
      by (auto simp: proxy_request_def Let_def split: option.splits if_splits)
  qed
qed

text \<open>The errors the response reader raises itself are the two it names.\<close>

lemma reader_rejections:
  "outcome (on_event accepts st ev) = Rejected m \<Longrightarrow> outcome st \<noteq> Rejected m \<Longrightarrow>
   m = ''Connection closed before headers received'' \<or>
   m = ''Response timeout after 10 minutes''"
  by (cases ev)
     (auto simp: on_event_def dataHandler_def closeHandler_def timeoutHandler_def resolve_def
         finish_if_complete_def cleanup_def Let_def
       split: if_splits option.splits list.splits prod.splits sum.splits)

text \<open>
  C3.  For a request that is not a health check: when every data channel is in use
  the ingress answers 503 with the body \<open>Service Unavailable: All proxy channels in
  use\<close> and the header \<open>Retry-After: 1\<close>; when the request fails with any error whose
  message is not that of saturation it answers 502 with the body \<open>Proxy Error: \<close>
  followed by the error's text; and when some channel is free, no failure of the
  request (allocation timeout, data channel not found, connection timeout) carries the
  saturation message, as long as the error of the exchange itself does not.
\<close>

theorem C3_ingress_error_mapping:
  assumes "\<not> is_health_path pathname"
  shows "((\<forall>ch \<in> set (dataChannels st). inUse ch) \<longrightarrow>
            fst (handleHTTPRequest st requestId pathname env) =
              \<lparr>resp_status = 503, resp_statusText = [],
               resp_headers = [(''Retry-After'', ''1'')],
               resp_body = Some ''Service Unavailable: All proxy channels in use''\<rparr>)
       \<and> (\<forall>e. fst (proxy_request st requestId env) = Inl e \<and>
                err_message e \<noteq> ''No available data channels'' \<longrightarrow>
            fst (handleHTTPRequest st requestId pathname env) =
              \<lparr>resp_status = 502, resp_statusText = [], resp_headers = [],
               resp_body = Some (''Proxy Error: '' @ error_to_string e)\<rparr>)
       \<and> (\<forall>e. fst (proxy_request st requestId env) = Inl e \<and>
                \<not> (\<forall>ch \<in> set (dataChannels st). inUse ch) \<and>
                (\<forall>e'. exchange env = Inl e' \<longrightarrow>
                   err_message e' \<noteq> ''No available data channels'') \<longrightarrow>
            err_message e \<noteq> ''No available data channels'')"
proof (intro conjI impI allI)
  assume "\<forall>ch \<in> set (dataChannels st). inUse ch"
  then show "fst (handleHTTPRequest st requestId pathname env) =
              \<lparr>resp_status = 503, resp_statusText = [],
               resp_headers = [(''Retry-After'', ''1'')],
               resp_body = Some ''Service Unavailable: All proxy channels in use''\<rparr>"
    using assms allocate_saturated[of st requestId "alloc_reply env"]
    by (simp add: handleHTTPRequest_def proxy_request_def service_unavailable_def)
next
  fix e
  assume "fst (proxy_request st requestId env) = Inl e \<and>
                err_message e \<noteq> ''No available data channels''"
  then show "fst (handleHTTPRequest st requestId pathname env) =
              \<lparr>resp_status = 502, resp_statusText = [], resp_headers = [],
               resp_body = Some (''Proxy Error: '' @ error_to_string e)\<rparr>"
    using assms
    by (cases "proxy_request st requestId env")
       (auto simp add: handleHTTPRequest_def bad_gateway_def)
next
  fix e
  assume "fst (proxy_request st requestId env) = Inl e \<and>
                \<not> (\<forall>ch \<in> set (dataChannels st). inUse ch) \<and>
                (\<forall>e'. exchange env = Inl e' \<longrightarrow>
                   err_message e' \<noteq> ''No available data channels'')"
  then show "err_message e \<noteq> ''No available data channels''"
    using proxy_request_error[of st requestId env e] by blast
qed

theorem C3_witness:
  "\<not> is_health_path ''/bucketA/hello.txt''
   \<and> fst (handleHTTPRequest busy_pool ''req_0_1'' ''/bucketA/hello.txt'' no_answer) =
        \<lparr>resp_status = 503, resp_statusText = [],
         resp_headers = [(''Retry-After'', ''1'')],
         resp_body = Some ''Service Unavailable: All proxy channels in use''\<rparr>
   \<and> fst (proxy_request free_pool ''req_0_1'' no_answer) =
        Inl (new_Error ''Channel allocation timeout'')
   \<and> fst (handleHTTPRequest free_pool ''req_0_1'' ''/bucketA/hello.txt'' no_answer) =
        \<lparr>resp_status = 502, resp_statusText = [], resp_headers = [],
         resp_body = Some ''Proxy Error: Error: Channel allocation timeout''\<rparr>"
proof -
  have h: "\<not> is_health_path ''/bucketA/hello.txt''" by (simp add: is_health_path_def)
  have b: "\<forall>ch \<in> set (dataChannels busy_pool). inUse ch" by (simp add: busy_pool_def)
  have f: "fst (proxy_request free_pool ''req_0_1'' no_answer) =
      Inl (new_Error ''Channel allocation timeout'')"
    by (simp add: proxy_request_def allocateDataChannel_def free_pool_def no_answer_def
          cs_sendControlMessage_def Let_def)
  have m: "err_message (new_Error ''Channel allocation timeout'') \<noteq>
      ''No available data channels''" by simp
  from C3_ingress_error_mapping[OF h, of busy_pool "''req_0_1''" no_answer] b
  have 1: "fst (handleHTTPRequest busy_pool ''req_0_1'' ''/bucketA/hello.txt'' no_answer) =
        \<lparr>resp_status = 503, resp_statusText = [],
         resp_headers = [(''Retry-After'', ''1'')],
         resp_body = Some ''Service Unavailable: All proxy channels in use''\<rparr>" by blast
  from C3_ingress_error_mapping[OF h, of free_pool "''req_0_1''" no_answer] f m
  have 2: "fst (handleHTTPRequest free_pool ''req_0_1'' ''/bucketA/hello.txt'' no_answer) =
        \<lparr>resp_status = 502, resp_statusText = [], resp_headers = [],
         resp_body = Some (''Proxy Error: '' @
                           error_to_string (new_Error ''Channel allocation timeout''))\<rparr>"
    by blast
  from h 1 2 f show ?thesis by simp
qed

section \<open>Properties: numbers written as text\<close>

lemma digit_val_digit_char: "d < 36 \<Longrightarrow> digit_val (digit_char d) = Some d"
  by (auto simp: digit_val_def digit_char_def Let_def)

lemma is_digit_digit_char: "d < r \<Longrightarrow> r \<le> 36 \<Longrightarrow> is_digit r (digit_char d)"
  by (simp add: is_digit_def digit_val_digit_char)

lemma digits_val_snoc: "digits_val r (ds @ [c]) = digits_val r ds * r + the (digit_val c)"
  by (simp add: digits_val_def)

lemma toStringRadix_value:
  "2 \<le> r \<Longrightarrow> r \<le> 36 \<Longrightarrow> digits_val r (toStringRadix r n) = n"
proof (induction r n rule: toStringRadix.induct)
  case (1 radix n)
  show ?case
  proof (cases "n < radix")
    case True
    with 1(2,3) show ?thesis
      by (simp add: toStringRadix.simps[of radix n] digits_val_def digit_val_digit_char)
  next
    case False
    with 1 have "digits_val radix (toStringRadix radix (n div radix)) = n div radix" by simp
    moreover have "n mod radix < radix" using 1(2) by simp
    then have "n mod radix < 36" using 1(3) by simp
    ultimately show ?thesis using False 1(2,3)
      by (simp add: toStringRadix.simps[of radix n] digits_val_snoc digit_val_digit_char)
  qed
qed

lemma toStringRadix_digits:
  "2 \<le> r \<Longrightarrow> r \<le> 36 \<Longrightarrow> \<forall>c \<in> set (toStringRadix r n). is_digit r c"
proof (induction r n rule: toStringRadix.induct)
  case (1 radix n)
  show ?case
  proof (cases "n < radix")
    case True
    with 1(2,3) show ?thesis
      by (simp add: toStringRadix.simps[of radix n] is_digit_digit_char)
  next
    case False
    with 1 have "\<forall>c \<in> set (toStringRadix radix (n div radix)). is_digit radix c" by simp
    moreover have "is_digit radix (digit_char (n mod radix))"
      using 1(2,3) by (intro is_digit_digit_char) auto
    ultimately show ?thesis using False 1(2,3)
      by (simp add: toStringRadix.simps[of radix n])
  qed
qed

lemma toStringRadix_nonempty: "toStringRadix r n \<noteq> []"
  by (subst toStringRadix.simps) simp

text \<open>A digit is no white space, no sign and no \<open>x\<close>.\<close>

lemma is_digit_code:
  "is_digit r c \<Longrightarrow>
   (48 \<le> (of_char c :: nat) \<and> of_char c \<le> (57::nat)) \<or>
   (97 \<le> (of_char c :: nat) \<and> of_char c \<le> (122::nat)) \<or>
   (65 \<le> (of_char c :: nat) \<and> of_char c \<le> (90::nat))"
  by (auto simp: is_digit_def digit_val_def Let_def split: if_splits option.splits)

lemma is_digit16_code:
  "is_digit r c \<Longrightarrow> r \<le> 16 \<Longrightarrow>
   (48 \<le> (of_char c :: nat) \<and> of_char c \<le> (57::nat)) \<or>
   (97 \<le> (of_char c :: nat) \<and> of_char c \<le> (102::nat)) \<or>
   (65 \<le> (of_char c :: nat) \<and> of_char c \<le> (70::nat))"
  by (auto simp: is_digit_def digit_val_def Let_def split: if_splits option.splits)

lemma ws_len_digit: "is_digit r c \<Longrightarrow> ws_len (c # cs) = 0"
  using is_digit_code[of r c] by (auto simp: ws_len.simps ascii_ws_def)

lemma trimStart_digit:
  assumes "is_digit r c"
  shows "trimStart (c # cs) = c # cs"
  by (subst trimStart.simps) (simp only: ws_len_digit[OF assms] simp_thms if_True)

lemma strip_sign_digit: "is_digit r c \<Longrightarrow> strip_sign (c # cs) = (1, c # cs)"
  using is_digit_code[of r c] by (auto simp: strip_sign_def)

lemma not_0x_digits:
  assumes r: "r \<le> 16" and d: "\<forall>c \<in> set s. is_digit r c"
  shows "\<not> has_0x s"
proof (cases s)
  case Nil
  then show ?thesis by (simp add: has_0x_def)
next
  case (Cons a t)
  show ?thesis
  proof (cases t)
    case Nil
    with Cons show ?thesis by (simp add: has_0x_def)
  next
    case (Cons b u)
    with \<open>s = a # t\<close> d have "is_digit r b" by simp
    from is_digit16_code[OF this r] have "b \<noteq> CHR ''x'' \<and> b \<noteq> CHR ''X''" by auto
    with Cons \<open>s = a # t\<close> show ?thesis by (simp add: has_0x_def)
  qed
qed

lemma takeWhile_all: "\<forall>c \<in> set s. P c \<Longrightarrow> takeWhile P s = s"
  by (induction s) auto

text \<open>A length written by \<open>toString()\<close> is read back by \<open>parseInt\<close> as that length.\<close>

lemma parseInt_toString10: "parseInt (toString10 n) = Num (int n)"
proof -
  let ?s = "toString10 n"
  have d: "\<forall>c \<in> set ?s. is_digit 10 c" by (rule toStringRadix_digits) simp_all
  obtain c cs where s: "?s = c # cs" using toStringRadix_nonempty[of 10 n] by (cases ?s) auto
  with d have c: "is_digit 10 c" by simp
  have "\<not> has_0x ?s" using not_0x_digits[OF _ d] by simp
  then show ?thesis
    using d c toStringRadix_value[of 10 n]
    by (simp add: parseInt_def s[symmetric] trimStart_digit[OF c, of cs, folded s]
        strip_sign_digit[OF c, of cs, folded s] parse_digits_def takeWhile_all
        toStringRadix_nonempty)
qed

section \<open>Properties: the request writer of the container side\<close>

lemma write_all_bytes: "write_all sched bytes = Some (Inr (w, rest)) \<Longrightarrow> w = bytes"
proof (induction sched bytes arbitrary: w rest rule: write_all.induct)
  case (1 sched)
  then show ?case by simp
next
  case (2 b bs)
  then show ?case by simp
next
  case (3 bytesWritten sched b bs)
  from "3.prems" have nn: "\<not> bytesWritten < 0" by (auto split: if_splits)
  from "3.prems" nn obtain w' where
    r: "write_all sched (drop (nat bytesWritten) (b # bs)) = Some (Inr (w', rest))"
    and w: "w = take (nat bytesWritten) (b # bs) @ w'"
    by (auto split: option.splits sum.splits)
  from "3.IH"[OF nn r] w show ?case by simp
qed

lemma then_write_bytes:
  "then_write r bytes = Some (Inr (w, rest)) \<Longrightarrow>
   \<exists>w0 s0. r = Some (Inr (w0, s0)) \<and> w = w0 @ bytes"
  by (auto simp: then_write_def dest: write_all_bytes split: option.splits sum.splits)

lemma write_all_whole:
  "write_all (int (length bytes) # sched) bytes =
     Some (Inr (bytes, if bytes = [] then int (length bytes) # sched else sched))"
  by (cases bytes) auto

lemma headers_set_get: "headers_get (headers_set hs k v) k = Some v"
  by (induction hs k v rule: headers_set.induct) (auto simp: headers_get_def)

lemma headers_set_once:
  "\<not> headers_has hs k \<Longrightarrow> length (filter (\<lambda>(k', v'). k' = k) (headers_set hs k v)) = 1"
  by (induction hs k v rule: headers_set.induct) (auto simp: headers_has_def split: if_splits)

lemma headers_set_filter:
  "\<not> headers_has hs k \<Longrightarrow> filter (\<lambda>(k', v'). k' = k) (headers_set hs k v) = [(k, v)]"
  by (induction hs k v rule: headers_set.induct) (auto simp: headers_has_def split: if_splits)

lemma insert_entry_set: "set (insert_entry e xs) = insert e (set xs)"
  by (induction xs) auto

lemma insert_entry_filter_length:
  "length (filter P (insert_entry e xs)) = length (filter P (e # xs))"
  by (induction xs) auto

lemma foldl_insert_entry_set:
  "set (foldl (\<lambda>acc e. insert_entry e acc) acc hs) = set acc \<union> set hs"
  by (induction hs arbitrary: acc) (auto simp: insert_entry_set)

lemma foldl_insert_entry_filter_length:
  "length (filter P (foldl (\<lambda>acc e. insert_entry e acc) acc hs)) =
     length (filter P acc) + length (filter P hs)"
  by (induction hs arbitrary: acc) (simp_all add: insert_entry_filter_length)

text \<open>Iteration yields the entries that were set, each as often as it is held.\<close>

lemma headers_entries_set: "set (headers_entries hs) = set hs"
  by (simp add: headers_entries_def foldl_insert_entry_set)

lemma headers_entries_filter_length:
  "length (filter P (headers_entries hs)) = length (filter P hs)"
  by (simp add: headers_entries_def foldl_insert_entry_filter_length)

lemma headers_entries_filter_single:
  assumes "filter P hs = [e]"
  shows "filter P (headers_entries hs) = [e]"
proof -
  have "length (filter P (headers_entries hs)) = 1"
    using assms by (simp add: headers_entries_filter_length)
  then obtain y where y: "filter P (headers_entries hs) = [y]"
    by (cases "filter P (headers_entries hs)") auto
  have "set (filter P (headers_entries hs)) = set (filter P hs)"
    by (simp add: headers_entries_set)
  with y assms show ?thesis by simp
qed

lemma send_unframed:
  assumes "currentSocket ch" and "req_body req = Some chunks"
    and "\<not> headers_has (ensure_host req) ''content-length''"
    and "\<not> chunked_declared (ensure_host req)"
  shows "sendHTTPRequestOverDataChannel ch req sched =
     then_write
       (write_all sched
          (request_head req
             (headers_set (ensure_host req) ''content-length''
                (toString10 (length (concat chunks))))))
       (concat chunks)"
  unfolding sendHTTPRequestOverDataChannel_def Let_def using assms by simp

text \<open>
  C7.  For a request with a body whose headers (after the \<open>host\<close> header is ensured)
  hold no \<open>content-length\<close> and declare no chunked transfer encoding: whenever the
  writer returns, whatever the socket took per call, the bytes on the data channel are
  the request line and the header lines of \<open>hs1\<close>, in the order in which \<open>Headers\<close>
  iterates, followed by exactly the bytes of the body's chunks; it does return when
  the socket takes each write whole; \<open>hs1\<close> holds one \<open>content-length\<close> entry, the
  header lines written hold one too, and its value is the length of those bytes
  written in decimal, which \<open>parseInt\<close> reads back as that length.
\<close>

theorem C7_unframed_body_is_buffered:
  assumes "currentSocket ch" and "req_body req = Some chunks"
    and "\<not> headers_has (ensure_host req) ''content-length''"
    and "\<not> chunked_declared (ensure_host req)"
    and "hs1 = headers_set (ensure_host req) ''content-length''
                 (toString10 (length (concat chunks)))"
  shows "(\<forall>sched wire rest.
            sendHTTPRequestOverDataChannel ch req sched = Some (Inr (wire, rest)) \<longrightarrow>
            wire = request_head req hs1 @ concat chunks)
       \<and> (\<exists>rest. sendHTTPRequestOverDataChannel ch req
                    [int (length (request_head req hs1)), int (length (concat chunks))] =
                  Some (Inr (request_head req hs1 @ concat chunks, rest)))
       \<and> headers_get hs1 ''content-length'' = Some (toString10 (length (concat chunks)))
       \<and> length (filter (\<lambda>(k, v). k = ''content-length'') hs1) = 1
       \<and> filter (\<lambda>(k, v). k = ''content-length'') (headers_entries hs1) =
           [(''content-length'', toString10 (length (concat chunks)))]
       \<and> parseInt (toString10 (length (concat chunks))) = Num (int (length (concat chunks)))"
proof -
  note send = send_unframed[OF assms(1-4), folded assms(5)]
  have a: "\<forall>sched wire rest.
            sendHTTPRequestOverDataChannel ch req sched = Some (Inr (wire, rest)) \<longrightarrow>
            wire = request_head req hs1 @ concat chunks"
  proof (intro allI impI)
    fix sched wire rest
    assume "sendHTTPRequestOverDataChannel ch req sched = Some (Inr (wire, rest))"
    then have "then_write (write_all sched (request_head req hs1)) (concat chunks)
        = Some (Inr (wire, rest))"
      by (simp only: send)
    from then_write_bytes[OF this] obtain w0 s0 where
      "write_all sched (request_head req hs1) = Some (Inr (w0, s0))"
      and "wire = w0 @ concat chunks" by blast
    with write_all_bytes[of sched "request_head req hs1" w0 s0]
    show "wire = request_head req hs1 @ concat chunks" by simp
  qed
  have hne: "request_head req hs1 \<noteq> []" by (simp add: request_head_def)
  have b: "\<exists>rest. sendHTTPRequestOverDataChannel ch req
                    [int (length (request_head req hs1)), int (length (concat chunks))] =
                  Some (Inr (request_head req hs1 @ concat chunks, rest))"
    unfolding send using hne by (simp add: then_write_def write_all_whole)
  have c: "headers_get hs1 ''content-length'' = Some (toString10 (length (concat chunks)))"
    unfolding assms(5) by (rule headers_set_get)
  have d: "length (filter (\<lambda>(k, v). k = ''content-length'') hs1) = 1"
    unfolding assms(5) by (rule headers_set_once[OF assms(3)])
  have e: "filter (\<lambda>(k, v). k = ''content-length'') (headers_entries hs1) =
           [(''content-length'', toString10 (length (concat chunks)))]"
    unfolding assms(5)
    by (rule headers_entries_filter_single) (rule headers_set_filter[OF assms(3)])
  from a b c d e parseInt_toString10 show ?thesis by blast
qed

theorem C7_witness:
  "sendHTTPRequestOverDataChannel idle_channel post_request [7, 20, 200, 5, 6] =
     Some (Inr (''POST /bucketA/k?x=1 HTTP/1.1'' @ CRLF @ ''accept: */*'' @ CRLF @
                ''content-length: 11'' @ CRLF @ ''host: r2.example'' @ CRLF @ CRLF @
                ''hello world'', []))
   \<and> headers_entries
        [(''accept'', ''*/*''), (''host'', ''r2.example''), (''content-length'', ''11'')] =
      [(''accept'', ''*/*''), (''content-length'', ''11''), (''host'', ''r2.example'')]
   \<and> headers_get [(''accept'', ''*/*''), (''host'', ''r2.example''), (''content-length'', ''11'')]
        ''content-length'' = Some ''11''
   \<and> parseInt ''11'' = Num 11"
proof -
  have 1: "currentSocket idle_channel" by (simp add: idle_channel_def)
  have 2: "req_body post_request = Some [''hello'', '' world'']" by (simp add: post_request_def)
  have eh: "ensure_host post_request = [(''accept'', ''*/*''), (''host'', ''r2.example'')]"
    by (simp add: ensure_host_def post_request_def headers_has_def)
  have 3: "\<not> headers_has (ensure_host post_request) ''content-length''"
    unfolding eh by (simp add: headers_has_def)
  have 4: "\<not> chunked_declared (ensure_host post_request)"
    unfolding eh by (simp add: chunked_declared_def headers_get_def)
  have ts: "toString10 (length (concat [''hello'', '' world''])) = ''11''" by code_simp
  have 5: "[(''accept'', ''*/*''), (''host'', ''r2.example''), (''content-length'', ''11'')] =
      headers_set (ensure_host post_request) ''content-length''
        (toString10 (length (concat [''hello'', '' world''])))"
    unfolding eh ts by simp
  have r: "sendHTTPRequestOverDataChannel idle_channel post_request [7, 20, 200, 5, 6] =
     Some (Inr (''POST /bucketA/k?x=1 HTTP/1.1'' @ CRLF @ ''accept: */*'' @ CRLF @
                ''content-length: 11'' @ CRLF @ ''host: r2.example'' @ CRLF @ CRLF @
                ''hello world'', []))"
    by code_simp
  have en: "headers_entries
        [(''accept'', ''*/*''), (''host'', ''r2.example''), (''content-length'', ''11'')] =
      [(''accept'', ''*/*''), (''content-length'', ''11''), (''host'', ''r2.example'')]"
    by code_simp
  note t = C7_unframed_body_is_buffered[OF 1 2 3 4 5]
  from t have "headers_get
      [(''accept'', ''*/*''), (''host'', ''r2.example''), (''content-length'', ''11'')]
      ''content-length'' = Some (toString10 (length (concat [''hello'', '' world''])))"
    by blast
  then have g: "headers_get
      [(''accept'', ''*/*''), (''host'', ''r2.example''), (''content-length'', ''11'')]
      ''content-length'' = Some ''11''"
    unfolding ts .
  from t have "parseInt (toString10 (length (concat [''hello'', '' world'']))) =
      Num (int (length (concat [''hello'', '' world''])))"
    by blast
  then have p: "parseInt ''11'' = Num 11"
    unfolding ts by simp
  from r en g p show ?thesis by (intro conjI)
qed

section \<open>Properties: the edge side\<close>

text \<open>
  C4.  With a control writer at hand, \<open>handleChannelAllocation\<close> for the request
  \<open>requestId\<close> and the port \<open>p\<close>: where no channel is recorded for \<open>p\<close> it only
  writes \<open>Error{requestId, "Requested channel not found"}\<close>; where the channel is in
  use it only writes \<open>Error{requestId, "Requested channel already in use"}\<close>;
  otherwise, the channel being recorded under its own port and the connection
  succeeding, it marks the channel in use, opens the connection to the data port, then
  writes \<open>ChannelAllocated{requestId, p}\<close> and starts the service loop, in this order;
  and where the connection fails it writes an \<open>Error\<close> for the request and no
  \<open>ChannelAllocated\<close>.
\<close>

theorem C4_handleChannelAllocation:
  assumes "es_controlWriter st"
  shows "(es_dataChannels st p = None \<longrightarrow>
            handleChannelAllocation env st requestId p =
              st\<lparr>es_log := es_log st @
                    [SentControl (ErrorMessage requestId ''Requested channel not found'')]\<rparr>)
       \<and> (\<forall>ch. es_dataChannels st p = Some ch \<and> es_inUse ch \<longrightarrow>
            handleChannelAllocation env st requestId p =
              st\<lparr>es_log := es_log st @
                    [SentControl (ErrorMessage requestId ''Requested channel already in use'')]\<rparr>)
       \<and> (\<forall>ch. es_dataChannels st p = Some ch \<and> \<not> es_inUse ch \<and> es_port ch = p \<and>
                 tcp_port env \<and> opened env = None \<longrightarrow>
            handleChannelAllocation env st requestId p =
              st\<lparr>es_dataChannels := (es_dataChannels st)
                      (p \<mapsto> ch\<lparr>es_inUse := True, es_socket := True, es_writer := True,
                                es_reader := True\<rparr>),
                 es_log := es_log st @
                    [OpenedData p, SentControl (ChannelAllocated requestId p),
                     ServiceLoopStarted p]\<rparr>)
       \<and> (\<forall>ch. es_dataChannels st p = Some ch \<and> \<not> es_inUse ch \<and>
                 \<not> (tcp_port env \<and> opened env = None) \<longrightarrow>
            (\<exists>m. es_log (handleChannelAllocation env st requestId p) =
                    es_log st @ [SentControl (ErrorMessage requestId m)]))"
  using assms
  by (auto simp: handleChannelAllocation_def es_sendControlMessage_def connectDataChannel_def
        Let_def split: option.splits)

theorem C4_witness:
  "es_controlWriter edge0
   \<and> handleChannelAllocation connect_ok edge0 ''req_0_1'' 9000 =
       edge0\<lparr>es_log := [SentControl (ErrorMessage ''req_0_1'' ''Requested channel not found'')]\<rparr>
   \<and> handleChannelAllocation connect_ok edge0 ''req_0_1'' 8086 =
       edge0\<lparr>es_log :=
                [SentControl (ErrorMessage ''req_0_1'' ''Requested channel already in use'')]\<rparr>
   \<and> es_log (handleChannelAllocation connect_ok edge0 ''req_0_1'' 8085) =
       [OpenedData 8085, SentControl (ChannelAllocated ''req_0_1'' 8085),
        ServiceLoopStarted 8085]"
proof -
  have w: "es_controlWriter edge0" by (simp add: edge0_def)
  have a: "es_dataChannels edge0 9000 = None" by (simp add: edge0_def)
  have b: "es_dataChannels edge0 8086 =
      Some \<lparr>es_port = 8086, es_socket = True, es_reader = True, es_writer = True,
            es_inUse = True\<rparr>"
    by (simp add: edge0_def)
  have c: "es_dataChannels edge0 8085 =
      Some \<lparr>es_port = 8085, es_socket = False, es_reader = False, es_writer = False,
            es_inUse = False\<rparr>"
    by (simp add: edge0_def)
  have l: "es_log edge0 = []" by (simp add: edge0_def)
  note t = C4_handleChannelAllocation[OF w, of _ connect_ok "''req_0_1''"]
  from t[of 9000] a l
  have 1: "handleChannelAllocation connect_ok edge0 ''req_0_1'' 9000 =
       edge0\<lparr>es_log := [SentControl (ErrorMessage ''req_0_1'' ''Requested channel not found'')]\<rparr>"
    by simp
  from t[of 8086] b l
  have 2: "handleChannelAllocation connect_ok edge0 ''req_0_1'' 8086 =
       edge0\<lparr>es_log :=
                [SentControl (ErrorMessage ''req_0_1'' ''Requested channel already in use'')]\<rparr>"
    by simp
  from t[of 8085] c l
  have 3: "es_log (handleChannelAllocation connect_ok edge0 ''req_0_1'' 8085) =
       [OpenedData 8085, SentControl (ChannelAllocated ''req_0_1'' 8085),
        ServiceLoopStarted 8085]"
    by (simp add: connect_ok_def)
  from w 1 2 3 show ?thesis by simp
qed

text \<open>
  C5.  With a writer on the channel, \<open>sendHTTPResponse\<close> writes the status line and
  the response's header lines (\<open>head\<close>), and then: for a response with a body and
  neither a \<open>content-length\<close> header nor a chunked \<open>transfer-encoding\<close>, the line
  \<open>Transfer-Encoding: chunked\<close>, the empty line, each chunk of the body as its length
  in hexadecimal, CR LF, its bytes, CR LF, and last \<open>0 CR LF CR LF\<close>; for a response
  with no body and no \<open>content-length\<close> header, the line \<open>Content-Length: 0\<close> and the
  empty line, and nothing more.
\<close>

theorem C5_es_response_framing:
  assumes "es_writer ch"
    and "head = (''HTTP/1.1 '' @ toString10 (r_status response) @ '' '' @
                 r_statusText response @ CRLF)
                # map (\<lambda>(key, v). key @ '': '' @ v @ CRLF) (r_headers response)"
  shows "(\<forall>chunks. r_body response = Some chunks \<and>
            \<not> hasContentLength_of (r_headers response) \<and>
            \<not> hasTransferEncodingChunked_of (r_headers response) \<longrightarrow>
            sendHTTPResponse ch response =
              Inr (head @ [''Transfer-Encoding: chunked'' @ CRLF, CRLF] @
                   concat (map (\<lambda>v. [toString16 (length v) @ CRLF, v, CRLF]) chunks) @
                   [''0'' @ CRLF @ CRLF]))
       \<and> (r_body response = None \<and> \<not> hasContentLength_of (r_headers response) \<longrightarrow>
            sendHTTPResponse ch response = Inr (head @ [''Content-Length: 0'' @ CRLF, CRLF]))"
  using assms by (simp add: sendHTTPResponse_def body_writes_def Let_def)

theorem C5_witness:
  "sendHTTPResponse open_channel method_not_allowed =
     Inr [''HTTP/1.1 405 Method Not Allowed'' @ CRLF,
          ''content-type: text/plain;charset=UTF-8'' @ CRLF,
          ''Transfer-Encoding: chunked'' @ CRLF, CRLF,
          ''12'' @ CRLF, ''Method not allowed'', CRLF, ''0'' @ CRLF @ CRLF]
   \<and> sendHTTPResponse open_channel deleted_response =
     Inr [''HTTP/1.1 204 No Content'' @ CRLF, ''x-amz-request-id: abc'' @ CRLF,
          ''Content-Length: 0'' @ CRLF, CRLF]"
proof -
  let ?head = "\<lambda>response. (''HTTP/1.1 '' @ toString10 (r_status response) @ '' '' @
                 r_statusText response @ CRLF)
                # map (\<lambda>(key, v). key @ '': '' @ v @ CRLF) (r_headers response)"
  have w: "es_writer open_channel" by (simp add: open_channel_def)
  have a: "r_body method_not_allowed = Some [''Method not allowed'']
      \<and> \<not> hasContentLength_of (r_headers method_not_allowed)
      \<and> \<not> hasTransferEncodingChunked_of (r_headers method_not_allowed)"
    by code_simp
  have b: "r_body deleted_response = None
      \<and> \<not> hasContentLength_of (r_headers deleted_response)"
    by code_simp
  have e1: "?head method_not_allowed @ [''Transfer-Encoding: chunked'' @ CRLF, CRLF] @
       concat (map (\<lambda>v. [toString16 (length v) @ CRLF, v, CRLF]) [''Method not allowed'']) @
       [''0'' @ CRLF @ CRLF] =
     [''HTTP/1.1 405 Method Not Allowed'' @ CRLF,
          ''content-type: text/plain;charset=UTF-8'' @ CRLF,
          ''Transfer-Encoding: chunked'' @ CRLF, CRLF,
          ''12'' @ CRLF, ''Method not allowed'', CRLF, ''0'' @ CRLF @ CRLF]"
    by code_simp
  have e2: "?head deleted_response @ [''Content-Length: 0'' @ CRLF, CRLF] =
     [''HTTP/1.1 204 No Content'' @ CRLF, ''x-amz-request-id: abc'' @ CRLF,
          ''Content-Length: 0'' @ CRLF, CRLF]"
    by code_simp
  from C5_es_response_framing[OF w refl, of method_not_allowed] a
  have 1: "sendHTTPResponse open_channel method_not_allowed =
      Inr (?head method_not_allowed @ [''Transfer-Encoding: chunked'' @ CRLF, CRLF] @
       concat (map (\<lambda>v. [toString16 (length v) @ CRLF, v, CRLF]) [''Method not allowed'']) @
       [''0'' @ CRLF @ CRLF])" by blast
  from C5_es_response_framing[OF w refl, of deleted_response] b
  have 2: "sendHTTPResponse open_channel deleted_response =
      Inr (?head deleted_response @ [''Content-Length: 0'' @ CRLF, CRLF])" by blast
  show ?thesis unfolding 1 2 e1 e2 by simp
qed

lemma forceClose_fields:
  "forceCloseControlChannel st =
     st\<lparr>es_controlReader := False, es_controlWriter := False, es_controlSocket := False,
        es_isConnected := False, heartbeatWatchdogInterval := None,
        disconnect_signalled := (disconnectResolve st \<or> disconnect_signalled st),
        disconnectResolve := False\<rparr>"
  by (auto simp: forceCloseControlChannel_def handleDisconnect_def stopHeartbeatWatchdog_def
        Let_def)

lemma watchdog_after_close:
  "watchdog_loop me startedAt clock (forceCloseControlChannel st) wakes =
     forceCloseControlChannel st"
  by (cases wakes) (auto simp: forceClose_fields Let_def)

text \<open>
  C8.  A round of the watchdog \<open>me\<close> that is still the current one, in a running
  container, wakes 5000 ms (plus the timer's lateness) after it went to sleep, at the
  time \<open>now\<close>.  It force-closes the control channel (reader, writer and socket
  dropped, the channel marked disconnected, the watchdog stopped) exactly when \<open>now -
  lastHeartbeatAt > 20000\<close> and \<open>now - startedAt > 10000\<close> both hold; when either
  fails nothing changes.  After a close the loop closes nothing again: its next round
  finds the watchdog stopped and returns.
\<close>

theorem C8_watchdog_closes_exactly_when_both_hold:
  assumes "heartbeatWatchdogInterval st = Some me"
    and "now = clock + 5000 + int late"
  shows "watchdog_loop me startedAt clock st [(late, Running)] =
           (if now - lastHeartbeatAt st > 20000 \<and> now - startedAt > 10000
            then forceCloseControlChannel st else st)
       \<and> \<not> es_controlSocket (forceCloseControlChannel st)
       \<and> \<not> es_controlReader (forceCloseControlChannel st)
       \<and> \<not> es_controlWriter (forceCloseControlChannel st)
       \<and> \<not> es_isConnected (forceCloseControlChannel st)
       \<and> (\<forall>clock' wakes.
             watchdog_loop me startedAt clock' (forceCloseControlChannel st) wakes =
               forceCloseControlChannel st)"
  using assms watchdog_after_close[of me startedAt _ st]
  by (auto simp: watchdog_check_def watchdog_sleep_ms_def forceClose_fields Let_def)

theorem C8_witness:
  "heartbeatWatchdogInterval edge0 = Some 1
   \<and> lastHeartbeatAt edge0 = 100000
   \<and> watchdog_loop 1 90000 115001 edge0 [(0, Running)] = forceCloseControlChannel edge0
   \<and> watchdog_loop 1 90000 115000 edge0 [(0, Running)] = edge0
   \<and> watchdog_loop 1 115001 120001 edge0 [(0, Running)] = edge0
   \<and> \<not> es_controlSocket (forceCloseControlChannel edge0)"
proof -
  have i: "heartbeatWatchdogInterval edge0 = Some 1" by (simp add: edge0_def)
  have l: "lastHeartbeatAt edge0 = 100000" by (simp add: edge0_def)
  from C8_watchdog_closes_exactly_when_both_hold[OF i, of 120001 115001 0 90000]
       C8_watchdog_closes_exactly_when_both_hold[OF i, of 120000 115000 0 90000]
       C8_watchdog_closes_exactly_when_both_hold[OF i, of 125001 120001 0 115001]
       i l
  show ?thesis by simp
qed

text \<open>
  C9.  A \<open>DELETE\<close> with no \<open>uploadId\<close> whose routed path is not \<open>/\<close> is answered
  204 whether or not the bucket holds the key; after it the bucket the path routes to
  holds no object under the key, its other objects and the other bucket are as they
  were; and the same \<open>DELETE\<close> once more is answered 204 again and changes nothing.
\<close>

theorem C9_delete_is_idempotent:
  assumes "route_r2 names url_pathname = (private, pathname)" and "pathname \<noteq> ''/''"
    and "key = (if startsWith pathname ''/'' then drop 1 pathname else pathname)"
    and "fetchFromR2_DELETE names store url_pathname None = (status1, store1)"
    and "fetchFromR2_DELETE names store1 url_pathname None = (status2, store2)"
  shows "status1 = 204 \<and> status2 = 204
       \<and> objects (if private then DATA_BUCKET store1 else DYNMAP_BUCKET store1) key = None
       \<and> store2 = store1
       \<and> (\<forall>k. k \<noteq> key \<longrightarrow>
             objects (if private then DATA_BUCKET store1 else DYNMAP_BUCKET store1) k =
             objects (if private then DATA_BUCKET store else DYNMAP_BUCKET store) k)
       \<and> (if private then DYNMAP_BUCKET store1 = DYNMAP_BUCKET store
           else DATA_BUCKET store1 = DATA_BUCKET store)"
  using assms
  by (auto simp: fetchFromR2_DELETE_def bucket_delete_def Let_def
        split: option.splits if_splits)

theorem C9_witness:
  "route_r2 bucket_names ''/bucketA/hello.txt'' = (False, ''/hello.txt'')
   \<and> objects (DYNMAP_BUCKET small_store) ''hello.txt'' = Some 3
   \<and> fst (fetchFromR2_DELETE bucket_names small_store ''/bucketA/hello.txt'' None) = 204
   \<and> objects (DYNMAP_BUCKET
        (snd (fetchFromR2_DELETE bucket_names small_store ''/bucketA/hello.txt'' None)))
        ''hello.txt'' = None
   \<and> fst (fetchFromR2_DELETE bucket_names
        (snd (fetchFromR2_DELETE bucket_names small_store ''/bucketA/hello.txt'' None))
        ''/bucketA/hello.txt'' None) = 204"
proof -
  have r: "route_r2 bucket_names ''/bucketA/hello.txt'' = (False, ''/hello.txt'')"
    by (simp add: route_r2_def bucket_names_def startsWith_def names_prefix_def
          strip_bucket_def Let_def)
  have n: "''/hello.txt'' \<noteq> ''/''" by simp
  have k: "''hello.txt'' =
      (if startsWith ''/hello.txt'' ''/'' then drop 1 ''/hello.txt'' else ''/hello.txt'')"
    by (simp add: startsWith_def)
  have o: "objects (DYNMAP_BUCKET small_store) ''hello.txt'' = Some 3"
    by (simp add: small_store_def)
  obtain s1 st1 where
    1: "fetchFromR2_DELETE bucket_names small_store ''/bucketA/hello.txt'' None = (s1, st1)"
    by force
  obtain s2 st2 where
    2: "fetchFromR2_DELETE bucket_names st1 ''/bucketA/hello.txt'' None = (s2, st2)"
    by force
  from C9_delete_is_idempotent[OF r n k 1 2] r o 1 2 show ?thesis by simp
qed

section \<open>Further properties\<close>

text \<open>
  The edge side's reader, in general: whatever way the bytes of a sequence of frames
  (each payload shorter than \<open>2^32\<close> bytes) are cut into reads, a connected reader
  that starts with an empty buffer handles exactly the payloads that parse, in order,
  and ends with an empty buffer.
\<close>

theorem es_reader_reassembles_frames:
  assumes "\<forall>p \<in> set payloads. length p < 4294967296"
    and "concat reads = concat (map encode_frame payloads)"
  shows "readControlMessages json_parse connected_reader (map Chunk reads) =
     \<lparr>controlBuffer = [], isConnected = True,
      dispatched = List.map_filter json_parse payloads\<rparr>"
  using assms by (rule es_reader_frames)

theorem es_reader_reassembles_frames_witness:
  "readControlMessages Some connected_reader
     (map Chunk [take 70 (encode_frame allocated_json @ encode_frame error_json),
                 drop 70 (encode_frame allocated_json @ encode_frame error_json)]) =
   \<lparr>controlBuffer = [], isConnected = True, dispatched = [allocated_json, error_json]\<rparr>"
proof -
  have a: "\<forall>p \<in> set [allocated_json, error_json]. length p < 4294967296"
    by (simp add: length_allocated_json length_error_json)
  have b: "concat [take 70 (encode_frame allocated_json @ encode_frame error_json),
                   drop 70 (encode_frame allocated_json @ encode_frame error_json)] =
           concat (map encode_frame [allocated_json, error_json])"
    by (simp del: take_append drop_append)
  from es_reader_reassembles_frames[OF a b, of Some] show ?thesis
    by (simp add: List.map_filter_simps)
qed

lemma indexOf_from_absent: "c \<notin> set s \<Longrightarrow> indexOf_from [c] s i = None"
  by (induction s arbitrary: i) auto

lemma split_absent: "c \<notin> set s \<Longrightarrow> split [c] s = [s]"
  by (subst split.simps) (simp add: indexOf_def indexOf_from_absent)

lemma ws_len_drop_digits:
  assumes "\<forall>c \<in> set s. is_digit r c"
  shows "ws_len (drop k s) = 0"
proof (cases "drop k s")
  case Nil
  then show ?thesis by (simp add: ws_len.simps)
next
  case (Cons c cs)
  then have "c \<in> set s" by (metis in_set_dropD list.set_intros(1))
  with assms have "is_digit r c" by blast
  with Cons show ?thesis by (simp add: ws_len_digit)
qed

lemma js_trim_digits:
  assumes "\<forall>c \<in> set s. is_digit r c"
  shows "js_trim s = s"
proof -
  have a: "trimStart s = s"
    using ws_len_drop_digits[OF assms, of 0] by (subst trimStart.simps) simp
  have "ws_len_end s = 0"
    using ws_len_drop_digits[OF assms] by (simp add: ws_len_end_def Let_def)
  then have b: "trimEnd s = s" by (subst trimEnd.simps) simp
  show ?thesis by (simp add: js_trim_def a b)
qed

lemma semicolon_no_digit: "is_digit r c \<Longrightarrow> c \<noteq> CHR '';''"
  using is_digit_code[of r c] by auto

lemma cr_no_digit: "is_digit r c \<Longrightarrow> c \<noteq> CR"
  using is_digit_code[of r c] by auto

text \<open>A size written by \<open>toString(16)\<close> is read back by the decoders as that size.\<close>

lemma chunk_size_of_toString16: "chunk_size_of (toString16 n) = Num (int n)"
proof -
  let ?s = "toString16 n"
  have d: "\<forall>c \<in> set ?s. is_digit 16 c" by (rule toStringRadix_digits) simp_all
  obtain c cs where s: "?s = c # cs" using toStringRadix_nonempty[of 16 n] by (cases ?s) auto
  with d have c: "is_digit 16 c" by simp
  have ns: "CHR '';'' \<notin> set ?s" using d semicolon_no_digit by blast
  have nx: "\<not> has_0x ?s" using not_0x_digits[OF _ d] by simp
  have p: "parseInt16 ?s = Num (int n)"
    using d c nx toStringRadix_value[of 16 n]
    by (simp add: parseInt16_def s[symmetric] trimStart_digit[OF c, of cs, folded s]
        strip_sign_digit[OF c, of cs, folded s] parse_digits_def takeWhile_all
        toStringRadix_nonempty)
  show ?thesis
    by (simp add: chunk_size_of_def split_absent[OF ns] js_trim_digits[OF d] p)
qed

lemma js_at_nat: "js_at xs (int i) = (if i < length xs then Some (xs ! i) else None)"
  by (simp add: js_at_def)

text \<open>The scan for the end of a size line stops at the first CR LF.\<close>

lemma scan_line_end_line:
  assumes "\<forall>c \<in> set ds. c \<noteq> CR"
  shows "scan_line_end (pre @ ds @ CRLF @ rest) (int (length pre)) =
         int (length pre + length ds)"
  using assms
proof (induction ds arbitrary: pre)
  case Nil
  have a: "js_at (pre @ CRLF @ rest) (int (length pre)) = Some CR"
    unfolding js_at_nat by (simp add: nth_append)
  have b: "js_at (pre @ CRLF @ rest) (int (length pre) + 1) = Some LF"
    using js_at_nat[of "pre @ CRLF @ rest" "Suc (length pre)"]
    by (simp add: nth_append add.commute)
  show ?case
    using a b by (subst scan_line_end.simps) simp
next
  case (Cons d ds)
  have a: "js_at (pre @ (d # ds) @ CRLF @ rest) (int (length pre)) = Some d"
    unfolding js_at_nat by (simp add: nth_append)
  have "scan_line_end ((pre @ [d]) @ ds @ CRLF @ rest) (int (length (pre @ [d])))
      = int (length (pre @ [d]) + length ds)"
    using Cons.prems by (intro Cons.IH) simp
  then have r: "scan_line_end (pre @ (d # ds) @ CRLF @ rest) (int (length pre) + 1)
      = int (length pre + length (d # ds))" by (simp add: add.commute)
  show ?case
    using Cons.prems a r by (subst scan_line_end.simps) simp
qed

text \<open>From the start of a sequence of framed, non-empty chunks closed by the zero
  chunk, the loop returns the chunks, whatever follows the zero chunk.\<close>

lemma decode_loop_frames:
  assumes "\<forall>v \<in> set vs. v \<noteq> []"
  shows "decode_loop (pre @ concat (map chunk_frame vs) @ ''0'' @ CRLF @ CRLF @ junk)
           (int (length pre)) acc = Some (acc @ vs)"
  using assms
proof (induction vs arbitrary: pre acc)
  case Nil
  let ?c = "pre @ ''0'' @ CRLF @ CRLF @ junk"
  have sc: "scan_line_end ?c (int (length pre)) = int (length pre + 1)"
    using scan_line_end_line[of "''0''" pre "CRLF @ junk"] by simp
  have sl: "js_slice ?c (int (length pre)) (int (length pre + 1)) = ''0''"
    unfolding js_slice_mid by simp
  have cs: "chunk_size_of ''0'' = Num 0" by code_simp
  show ?case
    apply (subst decode_loop.simps)
    apply (simp only: concat.simps list.map append_Nil sc Let_def sl cs)
    apply simp
    done
next
  case (Cons v vs)
  let ?h = "toString16 (length v)"
  let ?rest = "concat (map chunk_frame vs) @ ''0'' @ CRLF @ CRLF @ junk"
  let ?c = "pre @ ?h @ CRLF @ v @ CRLF @ ?rest"
  have ceq: "pre @ concat (map chunk_frame (v # vs)) @ ''0'' @ CRLF @ CRLF @ junk = ?c"
    by (simp add: chunk_frame_def)
  have d: "\<forall>c \<in> set ?h. c \<noteq> CR"
    using toStringRadix_digits[of 16 "length v"] cr_no_digit by fastforce
  have sc: "scan_line_end ?c (int (length pre)) = int (length pre + length ?h)"
    using scan_line_end_line[OF d, of pre "v @ CRLF @ ?rest"] by simp
  have sl: "js_slice ?c (int (length pre)) (int (length pre + length ?h)) = ?h"
    unfolding js_slice_mid by simp
  have vne: "v \<noteq> []" using Cons.prems by simp
  have len: "length ?c = length pre + length ?h + 2 + length v + 2 + length ?rest" by simp
  have sl2: "js_slice ?c (int (length pre + length ?h) + 2)
        (int (length pre + length ?h) + 2 + int (length v)) = v"
  proof -
    have "js_slice ?c (int (length pre + length ?h + 2))
        (int (length pre + length ?h + 2 + length v)) = v"
      unfolding js_slice_mid by simp
    then show ?thesis by (simp add: add.commute add.left_commute)
  qed
  have IH: "decode_loop ((pre @ chunk_frame v) @ ?rest)
      (int (length (pre @ chunk_frame v))) (acc @ [v]) = Some ((acc @ [v]) @ vs)"
    using Cons.prems by (intro Cons.IH) simp
  have c2: "(pre @ chunk_frame v) @ ?rest = ?c" by (simp add: chunk_frame_def)
  have p2: "int (length (pre @ chunk_frame v)) =
      int (length pre + length ?h) + 2 + int (length v) + 2"
    by (simp add: chunk_frame_def)
  show ?case
    unfolding ceq
    apply (subst decode_loop.simps)
    apply (simp only: sc Let_def sl chunk_size_of_toString16 number.case sl2)
    using vne IH[unfolded c2 p2] apply (simp add: len)
    done
qed

lemma concat_body_writes:
  "concat (body_writes True chunks) = concat (map chunk_frame chunks) @ ''0'' @ CRLF @ CRLF"
  by (induction chunks) (simp_all add: body_writes_def chunk_frame_def)

text \<open>
  The body the edge side writes with chunked encoding is read back by both decoders:
  when no chunk of the body is empty, the chunked writes of \<open>sendHTTPResponse\<close>,
  received in reads cut anywhere and followed by any bytes, decode to the bytes of the
  body.
\<close>

theorem chunked_body_round_trip:
  assumes "\<forall>v \<in> set chunks. v \<noteq> []"
    and "concat reads = concat (body_writes True chunks) @ junk"
  shows "cs_decodeChunkedBody reads = Some (concat chunks)
       \<and> es_decodeChunkedBody (concat reads) = Some (concat chunks)"
proof -
  have "decode_loop (concat reads) 0 [] = Some chunks"
    using decode_loop_frames[OF assms(1), of "[]" junk "[]"] assms(2)
    by (simp add: concat_body_writes)
  then show ?thesis
    by (simp add: cs_decodeChunkedBody_def es_decodeChunkedBody_def)
qed

theorem chunked_body_round_trip_witness:
  "cs_decodeChunkedBody [''5'' @ CRLF @ ''he'', ''llo'' @ CRLF @ ''6'' @ CRLF @ '' world'' @
       CRLF @ ''0'' @ CRLF, CRLF @ ''xyz''] = Some ''hello world''"
proof -
  have a: "\<forall>v \<in> set [''hello'', '' world'']. v \<noteq> []" by simp
  have b: "concat [''5'' @ CRLF @ ''he'', ''llo'' @ CRLF @ ''6'' @ CRLF @ '' world'' @
       CRLF @ ''0'' @ CRLF, CRLF @ ''xyz''] =
      concat (body_writes True [''hello'', '' world'']) @ ''xyz''"
    by code_simp
  from chunked_body_round_trip[OF a b] show ?thesis by simp
qed

end
